theory Spec2Isabelle
  imports Complex_Main "HOL-Library.Sublist"
begin

section \<open>Python values\<close>

text \<open>
  The program works on what \<^verbatim>\<open>json.loads\<close> produces: \<^verbatim>\<open>None\<close>, booleans, integers,
  floats, strings, lists and string-keyed dictionaries. A float is modelled by the rational
  it denotes (no rounding, no NaN, no infinities). A dictionary is an association list read
  with \<open>map_of\<close>. A string is a list of code points below 256.
\<close>

datatype json =
    JNull
  | JBool bool
  | JInt int
  | JFloat rat
  | JStr string
  | JList "json list"
  | JObj "(string \<times> json) list"

text \<open>The exceptions that the modelled functions can raise.\<close>

datatype py_error =
    AttributeError
  | KeyError
  | TypeError
  | JSONDecodeError
  | RuntimeError
  | URLError
  | HTTPError
  | TimeoutError
  | RecursionError
  | UnicodeDecodeError
  | ValueError
  | OverflowError
  | OSError

text \<open>Truth value testing (\<^verbatim>\<open>if x:\<close>, \<^verbatim>\<open>not x\<close>).\<close>

fun truthy :: "json \<Rightarrow> bool" where
  "truthy JNull = False"
| "truthy (JBool b) = b"
| "truthy (JInt n) = (n \<noteq> 0)"
| "truthy (JFloat r) = (r \<noteq> 0)"
| "truthy (JStr s) = (s \<noteq> [])"
| "truthy (JList xs) = (xs \<noteq> [])"
| "truthy (JObj d) = (d \<noteq> [])"

text \<open>\<^verbatim>\<open>x.get(k)\<close> and \<^verbatim>\<open>x.get(k, default)\<close>: only a dictionary has the method.\<close>

fun dict_get :: "json \<Rightarrow> string \<Rightarrow> json \<Rightarrow> py_error + json" where
  "dict_get (JObj d) k dflt = Inr (case map_of d k of None \<Rightarrow> dflt | Some v \<Rightarrow> v)"
| "dict_get _ k dflt = Inl AttributeError"

text \<open>\<^verbatim>\<open>x[k]\<close> with a string key: a missing key raises \<^verbatim>\<open>KeyError\<close>, and a value that
  is not a dictionary raises \<^verbatim>\<open>TypeError\<close>.\<close>

fun subscript :: "json \<Rightarrow> string \<Rightarrow> py_error + json" where
  "subscript (JObj d) k = (case map_of d k of None \<Rightarrow> Inl KeyError | Some v \<Rightarrow> Inr v)"
| "subscript _ k = Inl TypeError"

section \<open>Strings\<close>

text \<open>\<^verbatim>\<open>str.isspace\<close> on one character; \<^verbatim>\<open>str.strip\<close>, \<^verbatim>\<open>str.split\<close> and the
  pattern \<^verbatim>\<open>\s\<close> all use this class.\<close>

definition isspace :: "char \<Rightarrow> bool" where
  "isspace c = (c \<in> {CHR 0x09, CHR 0x0A, CHR 0x0B, CHR 0x0C, CHR 0x0D,
                      CHR 0x1C, CHR 0x1D, CHR 0x1E, CHR 0x1F, CHR 0x20, CHR 0x85, CHR 0xA0})"

text \<open>\<^verbatim>\<open>str.isdigit\<close> on one character: the ten decimal digits and the superscripts one,
  two and three.\<close>

definition isdigit_char :: "char \<Rightarrow> bool" where
  "isdigit_char c = (c \<in> set (''0123456789'' @ [CHR 0xB2, CHR 0xB3, CHR 0xB9]))"

definition lower_char :: "char \<Rightarrow> char" where
  "lower_char c =
     (let n = (of_char c :: nat)
      in if (65 \<le> n \<and> n \<le> 90) \<or> (192 \<le> n \<and> n \<le> 222 \<and> n \<noteq> 215)
         then char_of (n + 32) else c)"

definition lower :: "string \<Rightarrow> string" where
  "lower s = map lower_char s"

definition strip :: "string \<Rightarrow> string" where
  "strip s = rev (dropWhile isspace (rev (dropWhile isspace s)))"

text \<open>\<^verbatim>\<open>s.split()\<close>: the maximal runs of non-whitespace characters; \<open>w\<close> is the word
  being read.\<close>

fun split_from :: "string \<Rightarrow> string \<Rightarrow> string list" where
  "split_from w [] = (if w = [] then [] else [w])"
| "split_from w (c # cs) =
     (if isspace c then (if w = [] then split_from [] cs else w # split_from [] cs)
      else split_from (w @ [c]) cs)"

definition split :: "string \<Rightarrow> string list" where
  "split s = split_from [] s"

text \<open>\<^verbatim>\<open>sep.join(xs)\<close>.\<close>

fun join :: "string \<Rightarrow> string list \<Rightarrow> string" where
  "join sep [] = []"
| "join sep [x] = x"
| "join sep (x # y # ys) = x @ sep @ join sep (y # ys)"

text \<open>\<^verbatim>\<open>re.sub(r"\s+", " ", s)\<close>: every maximal run of whitespace becomes one space;
  the flag says that the previous character belonged to a run.\<close>

fun sub_ws :: "bool \<Rightarrow> string \<Rightarrow> string" where
  "sub_ws in_run [] = []"
| "sub_ws in_run (c # cs) =
     (if isspace c then (if in_run then sub_ws True cs else CHR '' '' # sub_ws True cs)
      else c # sub_ws False cs)"

text \<open>\<^verbatim>\<open>q in t\<close> for strings.\<close>

fun contains :: "string \<Rightarrow> string \<Rightarrow> bool" where
  "contains [] q = (q = [])"
| "contains (c # cs) q = (prefix q (c # cs) \<or> contains cs q)"

section \<open>Resolver\<close>

definition normalize_text :: "string \<Rightarrow> string" where
  "normalize_text text = sub_ws False (lower (strip text))"

text \<open>\<^verbatim>\<open>str.isdigit\<close>: at least one character, and all of them digits.\<close>

definition is_number :: "string \<Rightarrow> bool" where
  "is_number text = (text \<noteq> [] \<and> list_all isdigit_char text)"

text \<open>\<^verbatim>\<open>find_by_id\<close> returns the first item whose \<^verbatim>\<open>questionFrontendId\<close> is the
  string looked for, \<^verbatim>\<open>None\<close> when there is none.\<close>

fun find_by_id :: "json list \<Rightarrow> string \<Rightarrow> py_error + json" where
  "find_by_id [] frontend_id = Inr JNull"
| "find_by_id (item # items) frontend_id =
     (case dict_get item ''questionFrontendId'' JNull of
        Inl e \<Rightarrow> Inl e
      | Inr v \<Rightarrow> if v = JStr frontend_id then Inr item else find_by_id items frontend_id)"

text \<open>\<^verbatim>\<open>normalize_text\<close> applied to a value taken from an item: only a string has
  \<^verbatim>\<open>strip\<close>.\<close>

fun normalize_value :: "json \<Rightarrow> py_error + string" where
  "normalize_value (JStr s) = Inr (normalize_text s)"
| "normalize_value _ = Inl AttributeError"

definition item_matches :: "string \<Rightarrow> json \<Rightarrow> py_error + bool" where
  "item_matches q item =
     (case dict_get item ''title'' (JStr []) of
        Inl e \<Rightarrow> Inl e
      | Inr tv \<Rightarrow>
         (case normalize_value tv of
            Inl e \<Rightarrow> Inl e
          | Inr title \<Rightarrow>
             (case dict_get item ''titleSlug'' (JStr []) of
                Inl e \<Rightarrow> Inl e
              | Inr sv \<Rightarrow>
                 (case normalize_value sv of
                    Inl e \<Rightarrow> Inl e
                  | Inr slug \<Rightarrow> Inr (contains title q \<or> contains slug q)))))"

fun matches_loop :: "string \<Rightarrow> json list \<Rightarrow> py_error + json list" where
  "matches_loop q [] = Inr []"
| "matches_loop q (item # items) =
     (case item_matches q item of
        Inl e \<Rightarrow> Inl e
      | Inr b \<Rightarrow>
         (case matches_loop q items of
            Inl e \<Rightarrow> Inl e
          | Inr ms \<Rightarrow> Inr (if b then item # ms else ms)))"

definition find_matches :: "json list \<Rightarrow> string \<Rightarrow> py_error + json list" where
  "find_matches items query = matches_loop (normalize_text query) items"

text \<open>\<^verbatim>\<open>resolve_slug\<close> returns the pair \<^verbatim>\<open>(slug, matches)\<close>; \<^verbatim>\<open>None\<close> is \<open>JNull\<close>.\<close>

definition resolve_slug :: "string \<Rightarrow> json list \<Rightarrow> py_error + (json \<times> json)" where
  "resolve_slug query items =
     (if is_number query then
        (case find_by_id items query of
           Inl e \<Rightarrow> Inl e
         | Inr item \<Rightarrow>
            if truthy item then
              (case subscript item ''titleSlug'' of
                 Inl e \<Rightarrow> Inl e
               | Inr slug \<Rightarrow> Inr (slug, JNull))
            else Inr (JNull, JNull))
      else if CHR ''-'' \<in> set query \<and> CHR '' '' \<notin> set query then
        Inr (JStr (strip query), JNull)
      else
        (case find_matches items query of
           Inl e \<Rightarrow> Inl e
         | Inr matches \<Rightarrow>
            (case matches of
               [] \<Rightarrow> Inr (JNull, JNull)
             | [m] \<Rightarrow>
                (case subscript m ''titleSlug'' of
                   Inl e \<Rightarrow> Inl e
                 | Inr slug \<Rightarrow> Inr (slug, JNull))
             | _ \<Rightarrow> Inr (JNull, JList matches))))"

text \<open>The three results of the resolver, as the pair that \<^verbatim>\<open>resolve_slug\<close> returns.\<close>

definition notFound :: "json \<times> json" where
  "notFound = (JNull, JNull)"

definition uniqueSlug :: "json \<Rightarrow> json \<times> json" where
  "uniqueSlug slug = (slug, JNull)"

definition ambiguous :: "json list \<Rightarrow> json \<times> json" where
  "ambiguous ms = (JNull, JList ms)"

text \<open>A catalog entry as the data model has it: a dictionary whose frontend id, title and
  slug are strings.\<close>

fun str_field :: "json \<Rightarrow> string \<Rightarrow> string option" where
  "str_field (JObj d) k = (case map_of d k of Some (JStr s) \<Rightarrow> Some s | _ \<Rightarrow> None)"
| "str_field _ k = None"

definition is_entry :: "json \<Rightarrow> bool" where
  "is_entry item =
     (str_field item ''questionFrontendId'' \<noteq> None \<and> str_field item ''title'' \<noteq> None
      \<and> str_field item ''titleSlug'' \<noteq> None)"

definition frontendId :: "json \<Rightarrow> string" where
  "frontendId item = the (str_field item ''questionFrontendId'')"

definition title :: "json \<Rightarrow> string" where
  "title item = the (str_field item ''title'')"

definition titleSlug :: "json \<Rightarrow> string" where
  "titleSlug item = the (str_field item ''titleSlug'')"

text \<open>An example catalog, used to run the resolver on concrete inputs.\<close>

definition mk_entry :: "string \<Rightarrow> string \<Rightarrow> string \<Rightarrow> json" where
  "mk_entry fid ttl slug =
     JObj [(''questionFrontendId'', JStr fid), (''title'', JStr ttl), (''titleSlug'', JStr slug)]"

definition example_catalog :: "json list" where
  "example_catalog =
     [mk_entry ''1'' ''Two Sum'' ''two-sum'',
      mk_entry ''15'' ''3Sum'' ''3sum'',
      mk_entry ''167'' ''Two Sum II - Input Array Is Sorted'' ''two-sum-ii-input-array-is-sorted'']"

section \<open>Markup to text\<close>

text \<open>
  \<^verbatim>\<open>HtmlToText\<close> subclasses the standard library's \<^verbatim>\<open>HTMLParser\<close>, which cuts the
  markup into events and calls one handler for each. The handlers are the program; the
  model takes the events as its input. Tag names arrive in lower case.
\<close>

datatype event =
    StartTag string "(string \<times> string option) list"
  | EndTag string
  | Data string

record parser =
  chunks :: "string list"
  in_pre :: bool
  pending_space :: bool
  list_prefix :: string

definition new_parser :: parser where
  "new_parser = \<lparr>chunks = [], in_pre = False, pending_space = False, list_prefix = []\<rparr>"

definition append_chunk :: "parser \<Rightarrow> string \<Rightarrow> parser" where
  "append_chunk p text = p\<lparr>chunks := chunks p @ [text]\<rparr>"

definition endswith_newline :: "string \<Rightarrow> bool" where
  "endswith_newline s = (s \<noteq> [] \<and> last s = CHR 0x0A)"

definition newline :: "parser \<Rightarrow> parser" where
  "newline p =
     (if chunks p = [] \<or> endswith_newline (last (chunks p)) then p
      else p\<lparr>chunks := chunks p @ [[CHR 0x0A]], pending_space := False\<rparr>)"

definition handle_starttag :: "parser \<Rightarrow> string \<Rightarrow> (string \<times> string option) list \<Rightarrow> parser" where
  "handle_starttag p tag attrs =
     (if tag \<in> {''p'', ''br''} then newline p
      else if tag = ''pre'' then (newline p)\<lparr>in_pre := True\<rparr>
      else if tag = ''code'' \<and> \<not> in_pre p then append_chunk p [CHR 0x60]
      else if tag \<in> {''ul'', ''ol''} then newline p
      else if tag = ''li'' then append_chunk (newline p) ''- ''
      else p)"

definition handle_endtag :: "parser \<Rightarrow> string \<Rightarrow> parser" where
  "handle_endtag p tag =
     (if tag = ''pre'' then (newline p)\<lparr>in_pre := False\<rparr>
      else if tag = ''code'' \<and> \<not> in_pre p then append_chunk p [CHR 0x60]
      else if tag \<in> {''p'', ''br''} then newline p
      else p)"

definition handle_data :: "parser \<Rightarrow> string \<Rightarrow> parser" where
  "handle_data p data =
     (if data = [] then p
      else if in_pre p then append_chunk p data
      else
        (let text = join '' '' (split data)
         in if text = [] then p
            else
              (let p1 = (if pending_space p
                         then (append_chunk p '' '')\<lparr>pending_space := False\<rparr> else p)
               in (append_chunk p1 text)\<lparr>pending_space := True\<rparr>)))"

fun handle :: "parser \<Rightarrow> event \<Rightarrow> parser" where
  "handle p (StartTag tag attrs) = handle_starttag p tag attrs"
| "handle p (EndTag tag) = handle_endtag p tag"
| "handle p (Data data) = handle_data p data"

definition feed :: "parser \<Rightarrow> event list \<Rightarrow> parser" where
  "feed p events = foldl handle p events"

definition get_text :: "parser \<Rightarrow> string" where
  "get_text p = strip (concat (chunks p))"

definition html_to_text :: "event list \<Rightarrow> string" where
  "html_to_text html = get_text (feed new_parser html)"

text \<open>
  What \<^verbatim>\<open>HTMLParser.feed\<close> delivers for a text in which neither \<^verbatim>\<open><\<close> nor
  \<^verbatim>\<open>&\<close> occurs: the whole text as one text event, and nothing for the empty text. In any
  other text the library looks for tags and character references; what it delivers there
  is not part of this model.
\<close>

definition markup_free :: "string \<Rightarrow> bool" where
  "markup_free text = (CHR ''<'' \<notin> set text \<and> CHR ''&'' \<notin> set text)"

definition feed_text :: "string \<Rightarrow> event list option" where
  "feed_text text =
     (if markup_free text then Some (if text = [] then [] else [Data text]) else None)"

definition convert_text :: "string \<Rightarrow> string option" where
  "convert_text text = map_option html_to_text (feed_text text)"

section \<open>Environment\<close>

text \<open>
  What reading a text and parsing it with \<^verbatim>\<open>json.loads\<close> gives: an exception
  (\<^verbatim>\<open>JSONDecodeError\<close> for a text that is not JSON, \<^verbatim>\<open>UnicodeDecodeError\<close> for bytes
  that are not text, \<^verbatim>\<open>RecursionError\<close> for a text nested too deeply, \<^verbatim>\<open>ValueError\<close>
  for an integer with too many digits, \<^verbatim>\<open>OSError\<close> when the file cannot be read), or
  the document the text parses to.
\<close>

datatype content = Raises py_error | Doc json

text \<open>
  The cache directory maps a file name to what reading that file gives; a name without an
  entry is a path for which \<^verbatim>\<open>path.exists()\<close> is false.
\<close>

type_synonym files = "string \<rightharpoonup> content"

text \<open>
  What one request meets: no connection (\<^verbatim>\<open>URLError\<close>), a timeout while reading, a
  status that \<^verbatim>\<open>urlopen\<close> raises as \<^verbatim>\<open>HTTPError\<close> (with the code and the body), or a
  response body.
\<close>

datatype reply = Unreachable | Timed_out | Status nat string | Body content

datatype query = LIST_QUERY | DETAIL_QUERY

datatype request = Post query json | Get_problem_list

text \<open>
  The state that the program changes: the files of the cache directory and the requests
  sent so far.
\<close>

record world =
  files :: files
  sent :: "request list"

text \<open>
  What the program depends on and does not change. The network is the sequence of
  outcomes that the requests meet, in the order the program sends them. The clock gives the
  reading of \<^verbatim>\<open>time.time()\<close> after that many requests. The built-in \<^verbatim>\<open>str\<close> gives a
  string or raises. \<open>written\<close> is \<^verbatim>\<open>json.dumps(payload, indent=2)\<close>: the exception it
  raises, or what reading the written text back gives. \<open>write_error\<close> is the exception
  with which the file system refuses to open the file of that name for writing, if it does.
\<close>

record env =
  net :: "nat \<Rightarrow> reply"
  clock :: "nat \<Rightarrow> rat"
  builtin_str :: "json \<Rightarrow> py_error + string"
  written :: "json \<Rightarrow> py_error + content"
  write_error :: "string \<Rightarrow> py_error option"

section \<open>Cache\<close>

definition LIST_TTL_SECONDS :: int where
  "LIST_TTL_SECONDS = 24 * 60 * 60"

definition QUESTION_TTL_SECONDS :: int where
  "QUESTION_TTL_SECONDS = 7 * 24 * 60 * 60"

text \<open>\<^verbatim>\<open>isinstance(v, (int, float))\<close>, with the number when it holds; \<^verbatim>\<open>bool\<close> is a
  subclass of \<^verbatim>\<open>int\<close>.\<close>

fun number_value :: "json \<Rightarrow> rat option" where
  "number_value (JInt n) = Some (of_int n)"
| "number_value (JFloat r) = Some r"
| "number_value (JBool b) = Some (if b then 1 else 0)"
| "number_value _ = None"

text \<open>\<^verbatim>\<open>int(x)\<close> on a float rounds towards zero.\<close>

definition py_int :: "rat \<Rightarrow> int" where
  "py_int x = (if 0 \<le> x then \<lfloor>x\<rfloor> else \<lceil>x\<rceil>)"

text \<open>
  The integers from this magnitude on have no float: converting one raises
  \<^verbatim>\<open>OverflowError\<close>.
\<close>

definition float_limit :: int where
  "float_limit = 2 ^ 1024 - 2 ^ 970"

text \<open>
  \<^verbatim>\<open>time.time() - v\<close> for a number \<open>v\<close>: an integer is converted to a float first. The
  difference is taken exactly; it is the float result whenever the integer and the
  difference are floats themselves (for integers up to \<open>2 ^ 53\<close> and the clock readings
  and TTLs of the statements below, which carry this bound).
\<close>

fun float_sub :: "rat \<Rightarrow> json \<Rightarrow> py_error + rat" where
  "float_sub now (JInt n) =
     (if \<bar>n\<bar> \<ge> float_limit then Inl OverflowError else Inr (now - of_int n))"
| "float_sub now (JFloat r) = Inr (now - r)"
| "float_sub now (JBool b) = Inr (now - (if b then 1 else 0))"
| "float_sub now _ = Inl TypeError"

definition load_cache :: "files \<Rightarrow> rat \<Rightarrow> string \<Rightarrow> int \<Rightarrow> py_error + json" where
  "load_cache fs now name ttl_seconds =
     (case fs name of
        None \<Rightarrow> Inr JNull
      | Some (Raises e) \<Rightarrow> if e = JSONDecodeError then Inr JNull else Inl e
      | Some (Doc payload) \<Rightarrow>
         (case dict_get payload ''fetched_at'' JNull of
            Inl e \<Rightarrow> Inl e
          | Inr fetched_at \<Rightarrow>
             if number_value fetched_at = None then Inr JNull
             else
               (case float_sub now fetched_at of
                  Inl e \<Rightarrow> Inl e
                | Inr age \<Rightarrow>
                   if age > of_int ttl_seconds then Inr JNull
                   else dict_get payload ''data'' JNull)))"

text \<open>
  \<^verbatim>\<open>save_cache\<close> builds the record, serialises it, and only then opens the file; when
  either step raises, the file is as it was.
\<close>

definition save_cache :: "env \<Rightarrow> files \<Rightarrow> rat \<Rightarrow> string \<Rightarrow> json \<Rightarrow> py_error + files" where
  "save_cache ev fs now name data =
     (case written ev (JObj [(''fetched_at'', JInt (py_int now)), (''data'', data)]) of
        Inl e \<Rightarrow> Inl e
      | Inr c \<Rightarrow>
         (case write_error ev name of
            Some e \<Rightarrow> Inl e
          | None \<Rightarrow> Inr (fs(name \<mapsto> c))))"

section \<open>Problem source\<close>

text \<open>\<^verbatim>\<open>k in x\<close> for a string \<open>k\<close>: a key of a dictionary, an element of a list, a
  substring of a string; other values are not containers.\<close>

fun str_in :: "string \<Rightarrow> json \<Rightarrow> py_error + bool" where
  "str_in k (JObj d) = Inr (k \<in> set (map fst d))"
| "str_in k (JList xs) = Inr (JStr k \<in> set xs)"
| "str_in k (JStr s) = Inr (contains s k)"
| "str_in k _ = Inl TypeError"

text \<open>
  The part of \<^verbatim>\<open>post_graphql\<close> after the body is parsed. The argument of
  \<^verbatim>\<open>RuntimeError(data["errors"])\<close> is evaluated before the exception is raised.
\<close>

definition reply_data :: "json \<Rightarrow> py_error + json" where
  "reply_data data =
     (case str_in ''errors'' data of
        Inl e \<Rightarrow> Inl e
      | Inr has_errors \<Rightarrow>
         if has_errors then
           (case subscript data ''errors'' of
              Inl e \<Rightarrow> Inl e
            | Inr errors \<Rightarrow> Inl RuntimeError)
         else subscript data ''data'')"

definition post_graphql ::
  "env \<Rightarrow> query \<Rightarrow> json \<Rightarrow> world \<Rightarrow> (py_error + json) \<times> world" where
  "post_graphql ev q variables w =
     (let w' = w\<lparr>sent := sent w @ [Post q variables]\<rparr>
      in case net ev (length (sent w)) of
           Unreachable \<Rightarrow> (Inl URLError, w')
         | Timed_out \<Rightarrow> (Inl TimeoutError, w')
         | Status code body \<Rightarrow> (Inl RuntimeError, w')
         | Body (Raises e) \<Rightarrow> (Inl e, w')
         | Body (Doc data) \<Rightarrow> (reply_data data, w'))"

text \<open>What a \<^verbatim>\<open>for\<close> loop or \<^verbatim>\<open>list.extend\<close> draws from a value.\<close>

fun iterate :: "json \<Rightarrow> py_error + json list" where
  "iterate (JList xs) = Inr xs"
| "iterate (JStr s) = Inr (map (\<lambda>c. JStr [c]) s)"
| "iterate (JObj d) = Inr (map (\<lambda>kv. JStr (fst kv)) d)"
| "iterate _ = Inl TypeError"

text \<open>\<^verbatim>\<open>x == n\<close> for an integer literal \<open>n\<close>.\<close>

definition eq_int :: "json \<Rightarrow> int \<Rightarrow> bool" where
  "eq_int v n = (number_value v = Some (of_int n))"

definition rest_item :: "env \<Rightarrow> json \<Rightarrow> py_error + json" where
  "rest_item ev entry =
     (case dict_get entry ''stat'' (JObj []) of
        Inl e \<Rightarrow> Inl e
      | Inr stat \<Rightarrow>
     (case dict_get entry ''difficulty'' (JObj []) of
        Inl e \<Rightarrow> Inl e
      | Inr dv \<Rightarrow>
     (case dict_get dv ''level'' JNull of
        Inl e \<Rightarrow> Inl e
      | Inr difficulty \<Rightarrow>
     (let diff_label =
            (if eq_int difficulty 1 then ''Easy''
             else if eq_int difficulty 2 then ''Medium''
             else if eq_int difficulty 3 then ''Hard''
             else ''Unknown'')
      in
     (case dict_get stat ''question_id'' (JStr []) of
        Inl e \<Rightarrow> Inl e
      | Inr qid \<Rightarrow>
     (case builtin_str ev qid of
        Inl e \<Rightarrow> Inl e
      | Inr qid_str \<Rightarrow>
     (case dict_get stat ''frontend_question_id'' (JStr []) of
        Inl e \<Rightarrow> Inl e
      | Inr fid \<Rightarrow>
     (case builtin_str ev fid of
        Inl e \<Rightarrow> Inl e
      | Inr fid_str \<Rightarrow>
     (case dict_get stat ''question__title'' (JStr []) of
        Inl e \<Rightarrow> Inl e
      | Inr ttl \<Rightarrow>
     (case dict_get stat ''question__title_slug'' (JStr []) of
        Inl e \<Rightarrow> Inl e
      | Inr slug \<Rightarrow>
     (case dict_get entry ''paid_only'' (JBool False) of
        Inl e \<Rightarrow> Inl e
      | Inr paid \<Rightarrow>
          Inr (JObj [(''questionId'', JStr qid_str),
                     (''questionFrontendId'', JStr fid_str),
                     (''title'', ttl),
                     (''titleSlug'', slug),
                     (''difficulty'', JStr diff_label),
                     (''paidOnly'', paid)]))))))))))))"

fun rest_items :: "env \<Rightarrow> json list \<Rightarrow> py_error + json list" where
  "rest_items ev [] = Inr []"
| "rest_items ev (entry # entries) =
     (case rest_item ev entry of
        Inl e \<Rightarrow> Inl e
      | Inr item \<Rightarrow>
         (case rest_items ev entries of
            Inl e \<Rightarrow> Inl e
          | Inr items \<Rightarrow> Inr (item # items)))"

definition rest_payload :: "env \<Rightarrow> json \<Rightarrow> py_error + json list" where
  "rest_payload ev payload =
     (case dict_get payload ''stat_status_pairs'' (JList []) of
        Inl e \<Rightarrow> Inl e
      | Inr pairs \<Rightarrow>
         (case iterate pairs of
            Inl e \<Rightarrow> Inl e
          | Inr entries \<Rightarrow> rest_items ev entries))"

definition fetch_problem_list_rest :: "env \<Rightarrow> world \<Rightarrow> (py_error + json list) \<times> world" where
  "fetch_problem_list_rest ev w =
     (let w' = w\<lparr>sent := sent w @ [Get_problem_list]\<rparr>
      in case net ev (length (sent w)) of
           Unreachable \<Rightarrow> (Inl URLError, w')
         | Timed_out \<Rightarrow> (Inl TimeoutError, w')
         | Status code body \<Rightarrow> (Inl HTTPError, w')
         | Body (Raises e) \<Rightarrow> (Inl e, w')
         | Body (Doc payload) \<Rightarrow> (rest_payload ev payload, w'))"

text \<open>\<^verbatim>\<open>n >= x\<close> for an integer \<open>n\<close>: only numbers are ordered against it.\<close>

definition int_ge :: "nat \<Rightarrow> json \<Rightarrow> py_error + bool" where
  "int_ge n v = (case number_value v of None \<Rightarrow> Inl TypeError | Some t \<Rightarrow> Inr (of_nat n \<ge> t))"

definition list_variables :: "nat \<Rightarrow> nat \<Rightarrow> json" where
  "list_variables skip limit =
     JObj [(''categorySlug'', JStr []), (''skip'', JInt (int skip)),
           (''limit'', JInt (int limit)), (''filters'', JObj [])]"

text \<open>One turn of the paging loop after the request: the items collected so far with the
  page added, and whether the loop breaks.\<close>

definition page_step :: "json list \<Rightarrow> json \<Rightarrow> py_error + (json list \<times> bool)" where
  "page_step all_items data =
     (case subscript data ''problemsetQuestionList'' of
        Inl e \<Rightarrow> Inl e
      | Inr problemset \<Rightarrow>
     (case subscript problemset ''questions'' of
        Inl e \<Rightarrow> Inl e
      | Inr items \<Rightarrow>
     (case iterate items of
        Inl e \<Rightarrow> Inl e
      | Inr page \<Rightarrow>
     (case subscript problemset ''total'' of
        Inl e \<Rightarrow> Inl e
      | Inr total_num \<Rightarrow>
     (case int_ge (length (all_items @ page)) total_num of
        Inl e \<Rightarrow> Inl e
      | Inr reached \<Rightarrow> Inr (all_items @ page, reached \<or> \<not> truthy items))))))"

text \<open>The \<^verbatim>\<open>while True\<close> loop; a run that never leaves it has no result.\<close>

partial_function (option) page_loop ::
  "env \<Rightarrow> nat \<Rightarrow> nat \<Rightarrow> json list \<Rightarrow> world \<Rightarrow> ((py_error + json list) \<times> world) option" where
  "page_loop ev skip limit all_items w =
     (case post_graphql ev LIST_QUERY (list_variables skip limit) w of
        (Inl e, w') \<Rightarrow> Some (Inl e, w')
      | (Inr data, w') \<Rightarrow>
         (case page_step all_items data of
            Inl e \<Rightarrow> Some (Inl e, w')
          | Inr (all_items', stop) \<Rightarrow>
             if stop then Some (Inr all_items', w')
             else page_loop ev (skip + limit) limit all_items' w'))"

text \<open>What \<^verbatim>\<open>except RuntimeError\<close> catches: the class and its subclass raised here.\<close>

definition is_RuntimeError :: "py_error \<Rightarrow> bool" where
  "is_RuntimeError e = (e = RuntimeError \<or> e = RecursionError)"

definition save_world :: "env \<Rightarrow> string \<Rightarrow> json \<Rightarrow> world \<Rightarrow> py_error + world" where
  "save_world ev name data w =
     (case save_cache ev (files w) (clock ev (length (sent w))) name data of
        Inl e \<Rightarrow> Inl e
      | Inr fs \<Rightarrow> Inr (w\<lparr>files := fs\<rparr>))"

text \<open>The last two lines of both fetch functions: save the value, then return it.\<close>

definition save_and_return ::
  "env \<Rightarrow> string \<Rightarrow> json \<Rightarrow> world \<Rightarrow> (py_error + json) \<times> world" where
  "save_and_return ev name data w =
     (case save_world ev name data w of
        Inl e \<Rightarrow> (Inl e, w)
      | Inr w' \<Rightarrow> (Inr data, w'))"

definition fetch_problem_list :: "env \<Rightarrow> world \<Rightarrow> ((py_error + json) \<times> world) option" where
  "fetch_problem_list ev w =
     (case load_cache (files w) (clock ev (length (sent w))) ''problem_list.json'' LIST_TTL_SECONDS of
        Inl e \<Rightarrow> Some (Inl e, w)
      | Inr cached \<Rightarrow>
         if truthy cached then Some (Inr cached, w)
         else
           (case page_loop ev 0 100 [] w of
              None \<Rightarrow> None
            | Some (Inr all_items, w1) \<Rightarrow>
                Some (save_and_return ev ''problem_list.json'' (JList all_items) w1)
            | Some (Inl e, w1) \<Rightarrow>
                if is_RuntimeError e then
                  (case fetch_problem_list_rest ev w1 of
                     (Inl e2, w2) \<Rightarrow> Some (Inl e2, w2)
                   | (Inr all_items, w2) \<Rightarrow>
                       Some (save_and_return ev ''problem_list.json'' (JList all_items) w2))
                else Some (Inl e, w1)))"

definition fetch_question :: "env \<Rightarrow> string \<Rightarrow> world \<Rightarrow> (py_error + json) \<times> world" where
  "fetch_question ev slug w =
     (let cache_name = ''question_'' @ slug @ ''.json''
      in case load_cache (files w) (clock ev (length (sent w))) cache_name QUESTION_TTL_SECONDS of
           Inl e \<Rightarrow> (Inl e, w)
         | Inr cached \<Rightarrow>
            if truthy cached then (Inr cached, w)
            else
              (case post_graphql ev DETAIL_QUERY (JObj [(''titleSlug'', JStr slug)]) w of
                 (Inl e, w') \<Rightarrow> (Inl e, w')
               | (Inr data, w') \<Rightarrow>
                  (case subscript data ''question'' of
                     Inl e \<Rightarrow> (Inl e, w')
                   | Inr question \<Rightarrow> save_and_return ev cache_name question w')))"

section \<open>Notions used in the statements\<close>

text \<open>A word: a non-empty string without whitespace, as \<^verbatim>\<open>str.split\<close> returns them.\<close>

definition word :: "string \<Rightarrow> bool" where
  "word x = (x \<noteq> [] \<and> (\<forall>c \<in> set x. \<not> isspace c))"

text \<open>A timestamp that a float holds exactly: a float, a boolean, or an integer up to
  \<open>2 ^ 53\<close> in magnitude.\<close>

fun exact_number :: "json \<Rightarrow> rat option" where
  "exact_number (JInt n) = (if \<bar>n\<bar> \<le> 2 ^ 53 then Some (of_int n) else None)"
| "exact_number (JFloat r) = Some r"
| "exact_number (JBool b) = Some (if b then 1 else 0)"
| "exact_number _ = None"

text \<open>A cache record for \<open>name\<close> that parses, is a dictionary, carries such a timestamp
  not older than \<open>ttl\<close> at the time \<open>now\<close>, and holds the value \<open>v\<close>.\<close>

definition fresh_record :: "files \<Rightarrow> rat \<Rightarrow> string \<Rightarrow> int \<Rightarrow> json \<Rightarrow> bool" where
  "fresh_record fs now name ttl v =
     (case fs name of
        Some (Doc (JObj d)) \<Rightarrow>
          (case map_of d ''fetched_at'' of
             Some ts \<Rightarrow>
               (case exact_number ts of
                  Some t \<Rightarrow> now - t \<le> of_int ttl \<and> map_of d ''data'' = Some v
                | None \<Rightarrow> False)
           | None \<Rightarrow> False)
      | _ \<Rightarrow> False)"


text \<open>The replies on which \<^verbatim>\<open>post_graphql\<close> raises what \<^verbatim>\<open>except RuntimeError\<close>
  catches: an error status, a body on which \<^verbatim>\<open>json.loads\<close> raises such an exception
  (\<^verbatim>\<open>RecursionError\<close>), or a parsed dictionary with the key \<^verbatim>\<open>"errors"\<close>.\<close>

fun endpoint_error :: "reply \<Rightarrow> bool" where
  "endpoint_error (Status code body) = True"
| "endpoint_error (Body (Raises e)) = is_RuntimeError e"
| "endpoint_error (Body (Doc (JObj d))) = (''errors'' \<in> set (map fst d))"
| "endpoint_error _ = False"

text \<open>The total that a reply to the list query reports, when it reports a number.\<close>

definition reported_total :: "reply \<Rightarrow> rat option" where
  "reported_total r =
     (case r of
        Body (Doc doc) \<Rightarrow>
          (case subscript doc ''data'' of
             Inr data \<Rightarrow>
               (case subscript data ''problemsetQuestionList'' of
                  Inr problemset \<Rightarrow>
                    (case subscript problemset ''total'' of
                       Inr t \<Rightarrow> number_value t
                     | Inl e \<Rightarrow> None)
                | Inl e \<Rightarrow> None)
           | Inl e \<Rightarrow> None)
      | _ \<Rightarrow> None)"

text \<open>The page that a reply to the list query carries: a dictionary without the key
  \<^verbatim>\<open>"errors"\<close> whose \<^verbatim>\<open>data.problemsetQuestionList\<close> has entries to draw from
  \<^verbatim>\<open>questions\<close> and a number as \<^verbatim>\<open>total\<close>; the entries and the total.\<close>

definition page_of :: "reply \<Rightarrow> (json list \<times> rat) option" where
  "page_of r =
     (case r of
        Body (Doc (JObj d)) \<Rightarrow>
          (if ''errors'' \<in> set (map fst d) then None
           else
             (case map_of d ''data'' of
                None \<Rightarrow> None
              | Some data \<Rightarrow>
                 (case subscript data ''problemsetQuestionList'' of
                    Inl e \<Rightarrow> None
                  | Inr problemset \<Rightarrow>
                     (case subscript problemset ''questions'' of
                        Inl e \<Rightarrow> None
                      | Inr items \<Rightarrow>
                         (case iterate items of
                            Inl e \<Rightarrow> None
                          | Inr page \<Rightarrow>
                             (case subscript problemset ''total'' of
                                Inl e \<Rightarrow> None
                              | Inr tv \<Rightarrow>
                                 (case number_value tv of
                                    None \<Rightarrow> None
                                  | Some t \<Rightarrow> Some (page, t))))))))
      | _ \<Rightarrow> None)"

section \<open>Example environments\<close>

text \<open>The built-in \<^verbatim>\<open>str\<close> on the values the examples apply it to: strings and the
  integers below ten.\<close>

definition example_str :: "json \<Rightarrow> py_error + string" where
  "example_str v =
     (case v of
        JStr s \<Rightarrow> Inr s
      | JInt n \<Rightarrow> Inr (if 0 \<le> n \<and> n < 10 then [''0123456789'' ! nat n] else ''?'')
      | _ \<Rightarrow> Inr ''?'')"

text \<open>An environment around a given network: the clock stands at 1700000000, every
  document is written as a text that reads back as the same document, and every file can
  be written.\<close>

definition example_env :: "(nat \<Rightarrow> reply) \<Rightarrow> env" where
  "example_env replies =
     \<lparr>net = replies, clock = (\<lambda>k. 1700000000), builtin_str = example_str,
      written = (\<lambda>v. Inr (Doc v)), write_error = (\<lambda>name. None)\<rparr>"

definition list_page :: "int \<Rightarrow> json list \<Rightarrow> reply" where
  "list_page total_num questions =
     Body (Doc (JObj [(''data'',
       JObj [(''problemsetQuestionList'',
         JObj [(''total'', JInt total_num), (''questions'', JList questions)])])]))"

definition empty_world :: world where
  "empty_world = \<lparr>files = Map.empty, sent = []\<rparr>"

text \<open>No connection at all.\<close>

definition offline :: env where
  "offline = example_env (\<lambda>k. Unreachable)"

text \<open>The GraphQL endpoint answers the first request with status 403; the REST endpoint then
  serves a snapshot of one problem.\<close>

definition rest_snapshot :: json where
  "rest_snapshot =
     JObj [(''stat_status_pairs'',
       JList [JObj [(''stat'', JObj [(''question_id'', JInt 1), (''frontend_question_id'', JInt 1),
                                      (''question__title'', JStr ''Two Sum''),
                                      (''question__title_slug'', JStr ''two-sum'')]),
                    (''difficulty'', JObj [(''level'', JInt 1)]),
                    (''paid_only'', JBool False)]])]"

definition graphql_forbidden :: env where
  "graphql_forbidden =
     example_env (\<lambda>k. if k = 0 then Status 403 ''Forbidden'' else Body (Doc rest_snapshot))"

text \<open>The GraphQL endpoint answers with status 403 and the REST endpoint cannot be reached.\<close>

definition both_down :: env where
  "both_down = example_env (\<lambda>k. if k = 0 then Status 403 ''Forbidden'' else Unreachable)"

text \<open>A server whose reported total runs ahead of what it has served: the reply to request
  \<open>k\<close> holds one entry and reports \<open>k + 2\<close>.\<close>

definition runaway :: env where
  "runaway = example_env (\<lambda>k. list_page (int k + 2) [JNull])"

text \<open>A server that reports 250 problems on every page but serves a single page of two.\<close>

definition short_server :: env where
  "short_server =
     example_env (\<lambda>k. if k = 0 then list_page 250 [mk_entry ''1'' ''Two Sum'' ''two-sum'',
                                                     mk_entry ''15'' ''3Sum'' ''3sum'']
                       else list_page 250 [])"

text \<open>A cache that holds a fresh record of an empty catalog, and one that holds a fresh
  record of the example catalog.\<close>

definition empty_catalog_cached :: world where
  "empty_catalog_cached =
     \<lparr>files = [''problem_list.json'' \<mapsto>
                 Doc (JObj [(''fetched_at'', JInt 1699999000), (''data'', JList [])])],
      sent = []\<rparr>"

definition catalog_cached :: world where
  "catalog_cached =
     \<lparr>files = [''problem_list.json'' \<mapsto>
                 Doc (JObj [(''fetched_at'', JInt 1699999000), (''data'', JList example_catalog)]),
               ''question_two-sum.json'' \<mapsto>
                 Doc (JObj [(''fetched_at'', JInt 1699999000),
                            (''data'', mk_entry ''1'' ''Two Sum'' ''two-sum'')])],
      sent = []\<rparr>"

section \<open>Properties of the resolver\<close>

lemma dropWhile_none: "\<forall>c \<in> set s. \<not> P c \<Longrightarrow> dropWhile P s = s"
  by (cases s) auto

lemma strip_no_space: "\<forall>c \<in> set s. \<not> isspace c \<Longrightarrow> strip s = s"
  by (simp add: strip_def dropWhile_none)

lemma is_entry_obj:
  assumes "is_entry item"
  obtains d where "item = JObj d"
    and "map_of d ''questionFrontendId'' = Some (JStr (frontendId item))"
    and "map_of d ''title'' = Some (JStr (title item))"
    and "map_of d ''titleSlug'' = Some (JStr (titleSlug item))"
proof (cases item)
  case (JObj d)
  with assms show ?thesis
    by (intro that[of d])
       (auto simp: is_entry_def frontendId_def title_def titleSlug_def
             split: option.splits json.splits)
qed (use assms in \<open>auto simp: is_entry_def\<close>)

lemma entry_frontend_id:
  "is_entry item \<Longrightarrow> dict_get item ''questionFrontendId'' JNull = Inr (JStr (frontendId item))"
  by (erule is_entry_obj) simp

lemma entry_truthy: "is_entry item \<Longrightarrow> truthy item"
  by (erule is_entry_obj) auto

lemma entry_slug: "is_entry item \<Longrightarrow> subscript item ''titleSlug'' = Inr (JStr (titleSlug item))"
  by (erule is_entry_obj) simp

lemma entry_matches:
  "is_entry item \<Longrightarrow>
   item_matches q item =
     Inr (contains (normalize_text (title item)) q \<or> contains (normalize_text (titleSlug item)) q)"
  by (erule is_entry_obj) (simp add: item_matches_def)

lemma find_by_id_entries:
  "list_all is_entry items \<Longrightarrow>
   find_by_id items q = Inr (case find (\<lambda>e. frontendId e = q) items of None \<Rightarrow> JNull | Some e \<Rightarrow> e)"
  by (induction items) (auto simp: entry_frontend_id)

lemma find_entry: "list_all is_entry items \<Longrightarrow> find P items = Some e \<Longrightarrow> is_entry e"
  by (induction items) (auto split: if_splits)

lemma contains_sublist: "contains t q = sublist q t"
  by (induction t) (auto simp: sublist_Cons_right)

lemma matches_loop_entries:
  "list_all is_entry items \<Longrightarrow>
   matches_loop q items =
     Inr (filter (\<lambda>e. sublist q (normalize_text (title e)) \<or> sublist q (normalize_text (titleSlug e))) items)"
  by (induction items) (auto simp: entry_matches contains_sublist)

lemma example_catalog_entries: "list_all is_entry example_catalog"
  by (simp add: example_catalog_def mk_entry_def is_entry_def)

lemma example_normalized:
  "normalize_text ''Two  SUM'' = ''two sum''"
  "normalize_text ''Two Sum'' = ''two sum''"
  "normalize_text ''two-sum'' = ''two-sum''"
  "normalize_text ''3Sum'' = ''3sum''"
  "normalize_text ''3sum'' = ''3sum''"
  "normalize_text ''Two Sum II - Input Array Is Sorted'' = ''two sum ii - input array is sorted''"
  "normalize_text ''two-sum-ii-input-array-is-sorted'' = ''two-sum-ii-input-array-is-sorted''"
  by code_simp+

text \<open>
  C4: for a numeric query (all digits, at least one) and a catalog of entries,
  \<^verbatim>\<open>resolve_slug\<close> returns the slug of the first entry, in catalog order, whose frontend id
  is the query, and not-found when there is none; titles and slugs are never looked at.
\<close>

theorem resolve_slug_numeric:
  assumes "is_number query" and "list_all is_entry items"
  shows "resolve_slug query items =
           Inr (case find (\<lambda>e. frontendId e = query) items of
                  None \<Rightarrow> notFound
                | Some e \<Rightarrow> uniqueSlug (JStr (titleSlug e)))"
proof (cases "find (\<lambda>e. frontendId e = query) items")
  case None
  then show ?thesis
    using assms by (simp add: resolve_slug_def find_by_id_entries notFound_def)
next
  case (Some e)
  then have "is_entry e"
    using assms(2) by (rule find_entry[rotated])
  then show ?thesis
    using assms Some
    by (simp add: resolve_slug_def find_by_id_entries entry_truthy entry_slug uniqueSlug_def)
qed

theorem resolve_slug_numeric_witness:
  "is_number ''167'' \<and> list_all is_entry example_catalog
   \<and> resolve_slug ''167'' example_catalog
       = Inr (uniqueSlug (JStr ''two-sum-ii-input-array-is-sorted''))
   \<and> is_number ''42'' \<and> resolve_slug ''42'' example_catalog = Inr notFound"
proof -
  have n1: "is_number ''167''" and n2: "is_number ''42''"
    by (simp_all add: is_number_def isdigit_char_def)
  have f1: "find (\<lambda>e. frontendId e = ''167'') example_catalog
              = Some (mk_entry ''167'' ''Two Sum II - Input Array Is Sorted''
                        ''two-sum-ii-input-array-is-sorted'')"
    by (simp add: example_catalog_def mk_entry_def frontendId_def)
  have f2: "find (\<lambda>e. frontendId e = ''42'') example_catalog = None"
    by (simp add: example_catalog_def mk_entry_def frontendId_def)
  show ?thesis
    using n1 n2 example_catalog_entries
      resolve_slug_numeric [OF n1 example_catalog_entries]
      resolve_slug_numeric [OF n2 example_catalog_entries]
    by (simp add: f1 f2 titleSlug_def mk_entry_def)
qed

text \<open>
  C6, amended: for a query that is not numeric and is not a hyphenated query free of the
  space character, \<^verbatim>\<open>resolve_slug\<close> collects, in catalog order, exactly the entries
  whose normalized title or slug contains the normalized query; none gives not-found, one
  gives its slug, several give the ambiguous list.
\<close>

theorem resolve_slug_fuzzy:
  assumes "\<not> is_number query"
    and "\<not> (CHR ''-'' \<in> set query \<and> CHR '' '' \<notin> set query)"
    and "list_all is_entry items"
  shows "resolve_slug query items =
           Inr (case filter (\<lambda>e. sublist (normalize_text query) (normalize_text (title e))
                                \<or> sublist (normalize_text query) (normalize_text (titleSlug e))) items of
                  [] \<Rightarrow> notFound
                | [e] \<Rightarrow> uniqueSlug (JStr (titleSlug e))
                | ms \<Rightarrow> ambiguous ms)"
proof -
  let ?ms = "filter (\<lambda>e. sublist (normalize_text query) (normalize_text (title e))
                        \<or> sublist (normalize_text query) (normalize_text (titleSlug e))) items"
  have fm: "find_matches items query = Inr ?ms"
    using assms(3) by (simp add: find_matches_def matches_loop_entries)
  have ent: "list_all is_entry ?ms"
    using assms(3) by (simp add: list_all_iff)
  show ?thesis
  proof (cases ?ms)
    case Nil
    then show ?thesis
      using assms(1,2) fm by (simp add: resolve_slug_def notFound_def)
  next
    case (Cons m rest)
    then have "is_entry m" using ent by simp
    then show ?thesis
      using assms(1,2) fm Cons
      by (cases rest) (auto simp: resolve_slug_def entry_slug uniqueSlug_def ambiguous_def)
  qed
qed

theorem resolve_slug_fuzzy_witness:
  "\<not> is_number ''Two  SUM''
   \<and> CHR ''-'' \<notin> set ''Two  SUM''
   \<and> list_all is_entry example_catalog
   \<and> resolve_slug ''Two  SUM'' example_catalog
       = Inr (ambiguous [mk_entry ''1'' ''Two Sum'' ''two-sum'',
                         mk_entry ''167'' ''Two Sum II - Input Array Is Sorted''
                           ''two-sum-ii-input-array-is-sorted''])"
proof -
  have h1: "\<not> is_number ''Two  SUM''"
    by (simp add: is_number_def isdigit_char_def)
  have h2: "\<not> (CHR ''-'' \<in> set ''Two  SUM'' \<and> CHR '' '' \<notin> set ''Two  SUM'')"
    by simp
  have sel: "filter (\<lambda>e. sublist ''two sum'' (normalize_text (title e))
                        \<or> sublist ''two sum'' (normalize_text (titleSlug e))) example_catalog
             = [mk_entry ''1'' ''Two Sum'' ''two-sum'',
                mk_entry ''167'' ''Two Sum II - Input Array Is Sorted''
                  ''two-sum-ii-input-array-is-sorted'']"
    by (simp add: example_catalog_def mk_entry_def title_def titleSlug_def example_normalized
          sublist_code)
  show ?thesis
    using h1 h2 example_catalog_entries resolve_slug_fuzzy [OF h1 h2 example_catalog_entries]
    by (simp add: example_normalized sel)
qed

text \<open>
  C6 as stated fails: the query \<^verbatim>\<open>"a-b\t"\<close> is not numeric and, having a tab, is not
  whitespace-free, and no entry of the catalog matches it; yet the slug rule answers, since
  it only looks for the space character.
\<close>

theorem resolve_slug_fuzzy_counterexample:
  "\<not> is_number [CHR ''a'', CHR ''-'', CHR ''b'', CHR 0x09]
   \<and> CHR ''-'' \<in> set [CHR ''a'', CHR ''-'', CHR ''b'', CHR 0x09]
   \<and> list_ex isspace [CHR ''a'', CHR ''-'', CHR ''b'', CHR 0x09]
   \<and> find_matches [mk_entry ''1'' ''Two Sum'' ''two-sum''] [CHR ''a'', CHR ''-'', CHR ''b'', CHR 0x09]
       = Inr []
   \<and> resolve_slug [CHR ''a'', CHR ''-'', CHR ''b'', CHR 0x09] [mk_entry ''1'' ''Two Sum'' ''two-sum'']
       = Inr (uniqueSlug (JStr ''a-b''))
   \<and> resolve_slug [CHR ''a'', CHR ''-'', CHR ''b'', CHR 0x09] [mk_entry ''1'' ''Two Sum'' ''two-sum'']
       \<noteq> Inr notFound"
proof -
  have n: "normalize_text [CHR ''a'', CHR ''-'', CHR ''b'', CHR 0x09] = ''a-b''"
    by code_simp
  have s: "strip [CHR ''a'', CHR ''-'', CHR ''b'', CHR 0x09] = ''a-b''"
    by code_simp
  show ?thesis
    by (simp add: n s example_normalized is_number_def isdigit_char_def isspace_def
          resolve_slug_def uniqueSlug_def notFound_def mk_entry_def find_matches_def
          item_matches_def)
qed

text \<open>
  C5: a query that is not numeric, contains a hyphen and contains no whitespace is returned
  as the unique slug, verbatim (trimming changes nothing), whatever the catalog holds.
\<close>

theorem resolve_slug_hyphenated:
  assumes "\<not> is_number query" and "CHR ''-'' \<in> set query"
    and "\<forall>c \<in> set query. \<not> isspace c"
  shows "resolve_slug query items = Inr (uniqueSlug (JStr (strip query)))
         \<and> strip query = query"
proof -
  have "CHR '' '' \<notin> set query"
    using assms(3) by (auto simp: isspace_def)
  then have "resolve_slug query items = Inr (uniqueSlug (JStr (strip query)))"
    using assms(1,2) by (simp add: resolve_slug_def uniqueSlug_def)
  moreover have "strip query = query"
    using assms(3) by (rule strip_no_space)
  ultimately show ?thesis by simp
qed

theorem resolve_slug_hyphenated_witness:
  "\<not> is_number ''no-such-problem'' \<and> CHR ''-'' \<in> set ''no-such-problem''
   \<and> \<not> list_ex isspace ''no-such-problem''
   \<and> resolve_slug ''no-such-problem'' example_catalog = Inr (uniqueSlug (JStr ''no-such-problem''))"
proof -
  have h1: "\<not> is_number ''no-such-problem''"
    by (simp add: is_number_def isdigit_char_def)
  have h2: "CHR ''-'' \<in> set ''no-such-problem''"
    by simp
  have h3: "\<forall>c \<in> set ''no-such-problem''. \<not> isspace c"
    by (simp add: isspace_def)
  show ?thesis
    using h1 h2 h3 resolve_slug_hyphenated [OF h1 h2 h3, of example_catalog]
    by (simp add: list_ex_iff)
qed

section \<open>Properties of the cache\<close>

lemma load_cache_absent: "fs name = None \<Longrightarrow> load_cache fs now name ttl = Inr JNull"
  by (simp add: load_cache_def)

lemma load_cache_unparsable:
  "fs name = Some (Raises JSONDecodeError) \<Longrightarrow> load_cache fs now name ttl = Inr JNull"
  by (simp add: load_cache_def)

lemma float_sub_error: "float_sub now v = Inl e \<Longrightarrow> number_value v \<noteq> None \<Longrightarrow> e = OverflowError"
  by (cases v) (auto split: if_splits)

lemma load_cache_object:
  "fs name = Some (Doc (JObj d)) \<Longrightarrow> load_cache fs now name ttl = Inl e \<Longrightarrow> e = OverflowError"
  by (auto simp: load_cache_def split: option.splits sum.splits if_splits dest: float_sub_error)

text \<open>
  C3: \<^verbatim>\<open>load_cache\<close> is meant to report a malformed record as a miss, and does so for a
  text that is not JSON and for a dictionary whose timestamp is not a number. A record that
  parses to something other than a dictionary escapes: the file \<^verbatim>\<open>problem_list.json\<close>
  holding \<^verbatim>\<open>[]\<close> makes \<^verbatim>\<open>payload.get\<close> raise \<^verbatim>\<open>AttributeError\<close>.
\<close>

theorem load_cache_list_record_raises:
  "load_cache [''problem_list.json'' \<mapsto> Doc (JList [])] 1700000000 ''problem_list.json''
     LIST_TTL_SECONDS = Inl AttributeError"
  by (simp add: load_cache_def)

lemma float_limit_above: "(2 :: int) ^ 53 < float_limit"
  by (simp add: float_limit_def)

lemma float_sub_exact:
  "exact_number ts = Some t \<Longrightarrow> number_value ts \<noteq> None \<and> float_sub now ts = Inr (now - t)"
  using float_limit_above by (cases ts) (auto split: if_splits)

lemma load_cache_fresh:
  assumes "fresh_record fs now name ttl v"
  shows "load_cache fs now name ttl = Inr v"
proof -
  from assms obtain d ts t where
    r: "fs name = Some (Doc (JObj d))" "map_of d ''fetched_at'' = Some ts"
       "exact_number ts = Some t" "now - t \<le> of_int ttl" "map_of d ''data'' = Some v"
    by (auto simp: fresh_record_def split: option.splits content.splits json.splits)
  from float_sub_exact [OF r(3), of now] r show ?thesis
    by (auto simp: load_cache_def)
qed


lemma offline_fields:
  "written offline v = Inr (Doc v)" "write_error offline name = None"
  "clock offline k = 1700000000" "net offline k = Unreachable"
  by (simp_all add: offline_def example_env_def)



section \<open>Properties of the problem source\<close>

text \<open>
  C7, amended: when the cache holds a fresh record for \<^verbatim>\<open>problem_list.json\<close> (24 hours)
  or for \<^verbatim>\<open>question_<slug>.json\<close> (7 days) whose value is truthy, the fetch returns
  that value and leaves the world as it was: no request is sent and nothing is written.
\<close>

theorem fetch_cached:
  "(fresh_record (files w) (clock ev (length (sent w))) ''problem_list.json'' LIST_TTL_SECONDS v
      \<and> truthy v
    \<longrightarrow> fetch_problem_list ev w = Some (Inr v, w))
   \<and> (fresh_record (files w) (clock ev (length (sent w))) (''question_'' @ slug @ ''.json'')
         QUESTION_TTL_SECONDS v \<and> truthy v
    \<longrightarrow> fetch_question ev slug w = (Inr v, w))"
proof (intro conjI impI)
  assume "fresh_record (files w) (clock ev (length (sent w))) ''problem_list.json''
            LIST_TTL_SECONDS v \<and> truthy v"
  then have "load_cache (files w) (clock ev (length (sent w))) ''problem_list.json''
               LIST_TTL_SECONDS = Inr v" and "truthy v"
    by (simp_all add: load_cache_fresh)
  then show "fetch_problem_list ev w = Some (Inr v, w)"
    by (simp add: fetch_problem_list_def)
next
  assume "fresh_record (files w) (clock ev (length (sent w))) (''question_'' @ slug @ ''.json'')
            QUESTION_TTL_SECONDS v \<and> truthy v"
  then have "load_cache (files w) (clock ev (length (sent w))) (''question_'' @ slug @ ''.json'')
               QUESTION_TTL_SECONDS = Inr v" and "truthy v"
    by (simp_all add: load_cache_fresh)
  then show "fetch_question ev slug w = (Inr v, w)"
    by (simp add: fetch_question_def)
qed

lemma catalog_cached_fresh:
  "fresh_record (files catalog_cached) (clock offline (length (sent catalog_cached)))
     ''problem_list.json'' LIST_TTL_SECONDS (JList example_catalog)"
  "fresh_record (files catalog_cached) (clock offline (length (sent catalog_cached)))
     (''question_'' @ ''two-sum'' @ ''.json'') QUESTION_TTL_SECONDS (mk_entry ''1'' ''Two Sum'' ''two-sum'')"
  by (simp_all add: fresh_record_def catalog_cached_def offline_fields LIST_TTL_SECONDS_def
        QUESTION_TTL_SECONDS_def)

theorem fetch_cached_witness:
  "fetch_problem_list offline catalog_cached = Some (Inr (JList example_catalog), catalog_cached)
   \<and> fetch_question offline ''two-sum'' catalog_cached
       = (Inr (mk_entry ''1'' ''Two Sum'' ''two-sum''), catalog_cached)"
proof -
  have t1: "truthy (JList example_catalog)"
    by (simp add: example_catalog_def)
  have t2: "truthy (mk_entry ''1'' ''Two Sum'' ''two-sum'')"
    by (simp add: mk_entry_def)
  show ?thesis
    using fetch_cached [of catalog_cached offline "JList example_catalog" "''two-sum''"]
      fetch_cached [of catalog_cached offline "mk_entry ''1'' ''Two Sum'' ''two-sum''" "''two-sum''"]
      catalog_cached_fresh t1 t2
    by simp
qed

text \<open>
  C7 as stated fails: a fresh record that holds the empty catalog \<^verbatim>\<open>[]\<close> does not pass
  the test \<^verbatim>\<open>if cached:\<close>, and the list query is sent.
\<close>

theorem fetch_cached_counterexample:
  "fresh_record (files empty_catalog_cached) (clock offline (length (sent empty_catalog_cached)))
     ''problem_list.json'' LIST_TTL_SECONDS (JList [])
   \<and> fetch_problem_list offline empty_catalog_cached
       = Some (Inl URLError, empty_catalog_cached\<lparr>sent := [Post LIST_QUERY (list_variables 0 100)]\<rparr>)
   \<and> fetch_problem_list offline empty_catalog_cached \<noteq> Some (Inr (JList []), empty_catalog_cached)"
proof -
  have "(1699999000 :: int) < float_limit"
    using float_limit_above by simp
  then show ?thesis
    by (simp add: fresh_record_def empty_catalog_cached_def offline_fields LIST_TTL_SECONDS_def
          fetch_problem_list_def load_cache_def page_loop.simps post_graphql_def
          is_RuntimeError_def)
qed

lemma post_graphql_world:
  "snd (post_graphql ev q v w) = w\<lparr>sent := sent w @ [Post q v]\<rparr>"
  by (simp add: post_graphql_def Let_def split: reply.splits content.splits)

lemma subscript_errors:
  "subscript x k \<noteq> Inl RuntimeError" "subscript x k \<noteq> Inl RecursionError"
  by (cases x; simp split: option.splits)+

lemma iterate_errors:
  "iterate x \<noteq> Inl RuntimeError" "iterate x \<noteq> Inl RecursionError"
  by (cases x; simp)+

lemma int_ge_errors:
  "int_ge n x \<noteq> Inl RuntimeError" "int_ge n x \<noteq> Inl RecursionError"
  by (simp_all add: int_ge_def split: option.splits)

lemma page_step_errors:
  "page_step all_items data \<noteq> Inl RuntimeError"
  "page_step all_items data \<noteq> Inl RecursionError"
  using subscript_errors iterate_errors int_ge_errors
  by (auto simp: page_step_def split: sum.splits)

lemma page_step_not_caught: "page_step all_items data = Inl e \<Longrightarrow> \<not> is_RuntimeError e"
  using page_step_errors [of all_items data] by (auto simp: is_RuntimeError_def)

lemma key_lookup: "k \<in> set (map fst d) \<Longrightarrow> \<exists>v. map_of d k = Some v"
  by (induction d) auto

lemma reply_data_errors:
  assumes "''errors'' \<in> set (map fst d)"
  shows "reply_data (JObj d) = Inl RuntimeError"
proof -
  obtain v where "map_of d ''errors'' = Some v"
    using key_lookup [OF assms] by blast
  with assms show ?thesis
    unfolding reply_data_def by simp
qed

lemma reply_data_no_errors:
  "''errors'' \<notin> set (map fst d) \<Longrightarrow> reply_data (JObj d) = subscript (JObj d) ''data''"
  unfolding reply_data_def by simp

lemma reply_data_not_object:
  "\<forall>d. data \<noteq> JObj d \<Longrightarrow> reply_data data = Inl TypeError"
  unfolding reply_data_def by (cases data) simp_all

lemma reply_data_caught:
  "(\<exists>e. reply_data data = Inl e \<and> is_RuntimeError e) \<longleftrightarrow> endpoint_error (Body (Doc data))"
proof (cases "\<exists>d. data = JObj d")
  case False
  then have "reply_data data = Inl TypeError"
    using reply_data_not_object by blast
  moreover have "\<not> endpoint_error (Body (Doc data))"
    using False by (cases data) simp_all
  ultimately show ?thesis
    by (simp add: is_RuntimeError_def)
next
  case True
  then obtain d where d: "data = JObj d" by blast
  show ?thesis
  proof (cases "''errors'' \<in> set (map fst d)")
    case True
    then show ?thesis
      using d reply_data_errors [OF True] by (simp add: is_RuntimeError_def)
  next
    case False
    have "reply_data data = subscript data ''data''"
      using d reply_data_no_errors [OF False] by simp
    moreover have "subscript data ''data'' \<noteq> Inl RuntimeError"
      "subscript data ''data'' \<noteq> Inl RecursionError"
      by (rule subscript_errors)+
    ultimately have "\<not> (\<exists>e. reply_data data = Inl e \<and> is_RuntimeError e)"
      by (auto simp: is_RuntimeError_def)
    then show ?thesis
      using d False by simp
  qed
qed

lemma post_graphql_caught:
  "(\<exists>e. fst (post_graphql ev q v w) = Inl e \<and> is_RuntimeError e)
   \<longleftrightarrow> endpoint_error (net ev (length (sent w)))"
proof (cases "net ev (length (sent w))")
  case Unreachable
  then show ?thesis by (simp add: post_graphql_def is_RuntimeError_def)
next
  case Timed_out
  then show ?thesis by (simp add: post_graphql_def is_RuntimeError_def)
next
  case (Status code body)
  then show ?thesis by (simp add: post_graphql_def is_RuntimeError_def)
next
  case (Body c)
  show ?thesis
  proof (cases c)
    case (Raises e)
    with Body show ?thesis by (simp add: post_graphql_def)
  next
    case (Doc data)
    with Body have "fst (post_graphql ev q v w) = reply_data data"
      by (simp add: post_graphql_def)
    with Body Doc reply_data_caught [of data] show ?thesis
      by simp
  qed
qed

lemma page_loop_result:
  assumes "page_loop ev skip limit all_items w = Some y"
  shows "files (snd y) = files w
         \<and> (\<exists>reqs. reqs \<noteq> [] \<and> sent (snd y) = sent w @ reqs \<and> Get_problem_list \<notin> set reqs)
         \<and> ((\<exists>e. fst y = Inl e \<and> is_RuntimeError e)
              \<longleftrightarrow> endpoint_error (net ev (length (sent (snd y)) - 1)))"
  using assms
proof (rule page_loop.raw_induct [rotated,
    where P = "\<lambda>ev skip limit all_items w y.
       files (snd y) = files w
       \<and> (\<exists>reqs. reqs \<noteq> [] \<and> sent (snd y) = sent w @ reqs \<and> Get_problem_list \<notin> set reqs)
       \<and> ((\<exists>e. fst y = Inl e \<and> is_RuntimeError e)
            \<longleftrightarrow> endpoint_error (net ev (length (sent (snd y)) - 1)))"],
    goal_cases)
  case (1 page_loop ev skip limit all_items w y)
  obtain r w' where pg: "post_graphql ev LIST_QUERY (list_variables skip limit) w = (r, w')"
    by (cases "post_graphql ev LIST_QUERY (list_variables skip limit) w")
  have w': "w' = w\<lparr>sent := sent w @ [Post LIST_QUERY (list_variables skip limit)]\<rparr>"
    using post_graphql_world [of ev LIST_QUERY "list_variables skip limit" w] pg by simp
  have rt: "(\<exists>e. r = Inl e \<and> is_RuntimeError e) \<longleftrightarrow> endpoint_error (net ev (length (sent w)))"
    using post_graphql_caught [of ev LIST_QUERY "list_variables skip limit" w] pg by simp
  show ?case
  proof (cases r)
    case (Inl e)
    with 1(2) pg have "y = (Inl e, w')" by simp
    with w' rt Inl show ?thesis by simp
  next
    case (Inr data)
    note data = this
    show ?thesis
    proof (cases "page_step all_items data")
      case (Inl e)
      with 1(2) pg data have "y = (Inl e, w')" by simp
      moreover have "\<not> is_RuntimeError e"
        using page_step_not_caught [OF Inl] .
      ultimately show ?thesis using w' rt data by simp
    next
      case (Inr res)
      obtain all_items' stop where res: "res = (all_items', stop)"
        by (cases res)
      show ?thesis
      proof (cases stop)
        case True
        with 1(2) pg data Inr res have "y = (Inr all_items', w')" by simp
        then show ?thesis using w' rt data by simp
      next
        case False
        with 1(2) pg data Inr res
        have "page_loop ev (skip + limit) limit all_items' w' = Some y" by simp
        from 1(1) [OF this] obtain reqs where
          f: "files (snd y) = files w'" and
          r: "reqs \<noteq> []" "sent (snd y) = sent w' @ reqs" "Get_problem_list \<notin> set reqs" and
          e: "(\<exists>e. fst y = Inl e \<and> is_RuntimeError e)
                \<longleftrightarrow> endpoint_error (net ev (length (sent (snd y)) - 1))"
          by blast
        have s: "sent (snd y) = sent w @ (Post LIST_QUERY (list_variables skip limit) # reqs)"
          using r w' by simp
        have g: "Get_problem_list \<notin> set (Post LIST_QUERY (list_variables skip limit) # reqs)"
          using r by simp
        have "files (snd y) = files w"
          using f w' by simp
        moreover have "\<exists>reqs. reqs \<noteq> [] \<and> sent (snd y) = sent w @ reqs
                         \<and> Get_problem_list \<notin> set reqs"
          using s g by blast
        ultimately show ?thesis
          using e by simp
      qed
    qed
  qed
qed




lemma fetch_problem_list_rest_world:
  "snd (fetch_problem_list_rest ev w) = w\<lparr>sent := sent w @ [Get_problem_list]\<rparr>"
  by (simp add: fetch_problem_list_rest_def Let_def split: reply.splits content.splits)

lemma post_graphql_files: "post_graphql ev q v w = (r, w') \<Longrightarrow> files w' = files w"
  using post_graphql_world [of ev q v w] by simp

lemma fetch_problem_list_rest_files:
  "fetch_problem_list_rest ev w = (r, w') \<Longrightarrow> files w' = files w"
  using fetch_problem_list_rest_world [of ev w] by simp

lemma page_loop_files:
  "page_loop ev skip limit all_items w = Some (r, w') \<Longrightarrow> files w' = files w"
  using page_loop_result [of ev skip limit all_items w "(r, w')"] by simp

lemma save_and_return_error: "save_and_return ev name data w = (Inl e, w') \<Longrightarrow> w' = w"
  by (auto simp: save_and_return_def split: sum.splits)

text \<open>
  C10: when \<^verbatim>\<open>fetch_problem_list\<close> or \<^verbatim>\<open>fetch_question\<close> ends in an error, whichever
  it is and wherever it is raised, the files of the cache are exactly what they were before
  the call: \<^verbatim>\<open>save_cache\<close> is reached only on the paths that return a value.
\<close>

theorem failed_fetch_keeps_cache:
  "(fetch_problem_list ev w = Some (Inl e, w') \<longrightarrow> files w' = files w)
   \<and> (fetch_question ev slug w = (Inl e, w') \<longrightarrow> files w' = files w)"
proof (intro conjI impI)
  assume a: "fetch_problem_list ev w = Some (Inl e, w')"
  show "files w' = files w"
  proof (cases "load_cache (files w) (clock ev (length (sent w))) ''problem_list.json''
                  LIST_TTL_SECONDS")
    case (Inl e0)
    with a show ?thesis by (simp add: fetch_problem_list_def)
  next
    case (Inr cached)
    note load = this
    show ?thesis
    proof (cases "truthy cached")
      case True
      with a load show ?thesis by (simp add: fetch_problem_list_def)
    next
      case False
      note miss = this
      show ?thesis
      proof (cases "page_loop ev 0 100 [] w")
        case None
        with a load miss show ?thesis by (simp add: fetch_problem_list_def)
      next
        case (Some y)
        obtain r w1 where y: "y = (r, w1)" by (cases y)
        have f1: "files w1 = files w"
          using Some y by (simp add: page_loop_files)
        show ?thesis
        proof (cases r)
          case (Inr all_items)
          with a load miss Some y
          have "save_and_return ev ''problem_list.json'' (JList all_items) w1 = (Inl e, w')"
            by (simp add: fetch_problem_list_def)
          then have "w' = w1"
            by (rule save_and_return_error)
          with f1 show ?thesis by simp
        next
          case (Inl e1)
          note e1 = this
          show ?thesis
          proof (cases "is_RuntimeError e1")
            case False
            with a load miss Some y e1 f1 show ?thesis
              by (simp add: fetch_problem_list_def)
          next
            case True
            obtain r2 w2 where rest: "fetch_problem_list_rest ev w1 = (r2, w2)"
              by (cases "fetch_problem_list_rest ev w1")
            then have f2: "files w2 = files w1"
              by (rule fetch_problem_list_rest_files)
            show ?thesis
            proof (cases r2)
              case (Inl e2)
              with a load miss Some y e1 True rest f1 f2 show ?thesis
                by (simp add: fetch_problem_list_def)
            next
              case (Inr all_items)
              with a load miss Some y e1 True rest
              have "save_and_return ev ''problem_list.json'' (JList all_items) w2 = (Inl e, w')"
                by (simp add: fetch_problem_list_def)
              then have "w' = w2"
                by (rule save_and_return_error)
              with f1 f2 show ?thesis by simp
            qed
          qed
        qed
      qed
    qed
  qed
next
  assume a: "fetch_question ev slug w = (Inl e, w')"
  show "files w' = files w"
  proof (cases "load_cache (files w) (clock ev (length (sent w))) (''question_'' @ slug @ ''.json'')
                  QUESTION_TTL_SECONDS")
    case (Inl e0)
    with a show ?thesis by (simp add: fetch_question_def)
  next
    case (Inr cached)
    note load = this
    show ?thesis
    proof (cases "truthy cached")
      case True
      with a load show ?thesis by (simp add: fetch_question_def)
    next
      case False
      obtain r w1 where pg: "post_graphql ev DETAIL_QUERY (JObj [(''titleSlug'', JStr slug)]) w = (r, w1)"
        by (cases "post_graphql ev DETAIL_QUERY (JObj [(''titleSlug'', JStr slug)]) w")
      then have f1: "files w1 = files w"
        by (rule post_graphql_files)
      show ?thesis
      proof (cases r)
        case (Inl e1)
        with a load False pg f1 show ?thesis
          by (simp add: fetch_question_def)
      next
        case (Inr data)
        note data = this
        show ?thesis
        proof (cases "subscript data ''question''")
          case (Inl e1)
          with a load False pg data f1 show ?thesis
            by (simp add: fetch_question_def)
        next
          case (Inr question)
          with a load False pg data
          have "save_and_return ev (''question_'' @ slug @ ''.json'') question w1 = (Inl e, w')"
            by (simp add: fetch_question_def)
          then have "w' = w1"
            by (rule save_and_return_error)
          with f1 show ?thesis by simp
        qed
      qed
    qed
  qed
qed

lemma example_env_fields:
  "net (example_env replies) k = replies k" "clock (example_env replies) k = 1700000000"
  "builtin_str (example_env replies) = example_str"
  "written (example_env replies) v = Inr (Doc v)" "write_error (example_env replies) name = None"
  by (simp_all add: example_env_def)

lemma cached_empty_catalog:
  "load_cache (files empty_catalog_cached) 1700000000 ''problem_list.json'' LIST_TTL_SECONDS
     = Inr (JList [])"
  "load_cache (files empty_catalog_cached) 1700000000 (''question_'' @ ''two-sum'' @ ''.json'')
     QUESTION_TTL_SECONDS = Inr JNull"
proof -
  have "\<not> \<bar>1699999000 :: int\<bar> \<ge> float_limit"
    by (simp add: float_limit_def)
  then show "load_cache (files empty_catalog_cached) 1700000000 ''problem_list.json''
               LIST_TTL_SECONDS = Inr (JList [])"
    by (simp add: load_cache_def empty_catalog_cached_def LIST_TTL_SECONDS_def)
  show "load_cache (files empty_catalog_cached) 1700000000 (''question_'' @ ''two-sum'' @ ''.json'')
          QUESTION_TTL_SECONDS = Inr JNull"
    by (simp add: load_cache_def empty_catalog_cached_def)
qed

lemma both_down_page_loop:
  "page_loop both_down 0 100 [] empty_catalog_cached
     = Some (Inl RuntimeError,
             empty_catalog_cached\<lparr>sent := [Post LIST_QUERY (list_variables 0 100)]\<rparr>)"
  by (subst page_loop.simps)
     (simp add: post_graphql_def both_down_def example_env_fields empty_catalog_cached_def)

lemma both_down_rest:
  "fetch_problem_list_rest both_down
       (empty_catalog_cached\<lparr>sent := [Post LIST_QUERY (list_variables 0 100)]\<rparr>)
     = (Inl URLError,
        empty_catalog_cached\<lparr>sent := [Post LIST_QUERY (list_variables 0 100), Get_problem_list]\<rparr>)"
  by (simp add: fetch_problem_list_rest_def both_down_def example_env_fields
        empty_catalog_cached_def)

theorem failed_fetch_keeps_cache_witness:
  "fetch_problem_list both_down empty_catalog_cached
     = Some (Inl URLError,
             empty_catalog_cached\<lparr>sent := [Post LIST_QUERY (list_variables 0 100), Get_problem_list]\<rparr>)
   \<and> fetch_question offline ''two-sum'' empty_catalog_cached
       = (Inl URLError,
          empty_catalog_cached\<lparr>sent := [Post DETAIL_QUERY (JObj [(''titleSlug'', JStr ''two-sum'')])]\<rparr>)
   \<and> files (empty_catalog_cached\<lparr>sent := [Post LIST_QUERY (list_variables 0 100), Get_problem_list]\<rparr>)
       = files empty_catalog_cached
   \<and> files (empty_catalog_cached\<lparr>sent := [Post DETAIL_QUERY (JObj [(''titleSlug'', JStr ''two-sum'')])]\<rparr>)
       = files empty_catalog_cached"
proof -
  have c: "clock both_down (length (sent empty_catalog_cached)) = 1700000000"
    "clock offline (length (sent empty_catalog_cached)) = 1700000000"
    by (simp_all add: both_down_def offline_def example_env_fields)
  have l: "fetch_problem_list both_down empty_catalog_cached
     = Some (Inl URLError,
             empty_catalog_cached\<lparr>sent := [Post LIST_QUERY (list_variables 0 100), Get_problem_list]\<rparr>)"
    by (simp add: fetch_problem_list_def c cached_empty_catalog both_down_page_loop both_down_rest
          is_RuntimeError_def)
  have q: "fetch_question offline ''two-sum'' empty_catalog_cached
       = (Inl URLError,
          empty_catalog_cached\<lparr>sent := [Post DETAIL_QUERY (JObj [(''titleSlug'', JStr ''two-sum'')])]\<rparr>)"
    using cached_empty_catalog(2)
    by (simp add: fetch_question_def c post_graphql_def offline_def example_env_fields
          empty_catalog_cached_def)
  show ?thesis
    using l q
      failed_fetch_keeps_cache [of both_down empty_catalog_cached URLError
        "empty_catalog_cached\<lparr>sent := [Post LIST_QUERY (list_variables 0 100), Get_problem_list]\<rparr>"
        "''two-sum''"]
      failed_fetch_keeps_cache [of offline empty_catalog_cached URLError
        "empty_catalog_cached\<lparr>sent := [Post DETAIL_QUERY (JObj [(''titleSlug'', JStr ''two-sum'')])]\<rparr>"
        "''two-sum''"]
    by simp
qed

lemma iterate_empty: "iterate x = Inr page \<Longrightarrow> (page = [] \<longleftrightarrow> \<not> truthy x)"
  by (cases x) auto

lemma page_of_reply:
  assumes "page_of r = Some (page, t)"
  obtains d data problemset items tv where
    "r = Body (Doc (JObj d))" "''errors'' \<notin> set (map fst d)" "map_of d ''data'' = Some data"
    "subscript data ''problemsetQuestionList'' = Inr problemset"
    "subscript problemset ''questions'' = Inr items" "iterate items = Inr page"
    "subscript problemset ''total'' = Inr tv" "number_value tv = Some t"
  using assms unfolding page_of_def
  by (auto split: reply.splits content.splits json.splits if_splits option.splits sum.splits)

lemma page_of_step:
  assumes "page_of (net ev (length (sent w))) = Some (page, t)"
  shows "\<exists>data. post_graphql ev q v w = (Inr data, w\<lparr>sent := sent w @ [Post q v]\<rparr>)
           \<and> page_step all_items data
               = Inr (all_items @ page, t \<le> of_nat (length (all_items @ page)) \<or> page = [])"
proof -
  from assms obtain d data problemset items tv where
    r: "net ev (length (sent w)) = Body (Doc (JObj d))" "''errors'' \<notin> set (map fst d)"
       "map_of d ''data'' = Some data"
       "subscript data ''problemsetQuestionList'' = Inr problemset"
       "subscript problemset ''questions'' = Inr items" "iterate items = Inr page"
       "subscript problemset ''total'' = Inr tv" "number_value tv = Some t"
    by (rule page_of_reply)
  have "reply_data (JObj d) = Inr data"
    using r(2,3) unfolding reply_data_def by simp
  then have pg: "post_graphql ev q v w = (Inr data, w\<lparr>sent := sent w @ [Post q v]\<rparr>)"
    using r(1) by (simp add: post_graphql_def)
  have "page_step all_items data
          = Inr (all_items @ page, t \<le> of_nat (length (all_items @ page)) \<or> \<not> truthy items)"
    using r(4-8) by (simp add: page_step_def int_ge_def)
  then have "page_step all_items data
          = Inr (all_items @ page, t \<le> of_nat (length (all_items @ page)) \<or> page = [])"
    using iterate_empty [OF r(6)] by simp
  with pg show ?thesis by blast
qed

lemma reply_data_Inr:
  assumes "reply_data doc = Inr data"
  obtains d where "doc = JObj d" "''errors'' \<notin> set (map fst d)" "map_of d ''data'' = Some data"
proof (cases "\<exists>d. doc = JObj d")
  case False
  then have "reply_data doc = Inl TypeError"
    using reply_data_not_object by blast
  with assms show ?thesis by simp
next
  case True
  then obtain d where d: "doc = JObj d" by blast
  have n: "''errors'' \<notin> set (map fst d)"
    using assms d reply_data_errors [of d] by auto
  then have "subscript (JObj d) ''data'' = Inr data"
    using assms d reply_data_no_errors [of d] by simp
  then have "map_of d ''data'' = Some data"
    by (simp split: option.splits)
  with d n show ?thesis by (rule that)
qed

lemma post_graphql_Inr:
  assumes "post_graphql ev q v w = (Inr data, w')"
  obtains d where "net ev (length (sent w)) = Body (Doc (JObj d))"
    "''errors'' \<notin> set (map fst d)" "map_of d ''data'' = Some data"
proof -
  from assms obtain doc where doc: "net ev (length (sent w)) = Body (Doc doc)"
    "reply_data doc = Inr data"
    by (auto simp: post_graphql_def Let_def split: reply.splits content.splits)
  from doc(2) obtain d where "doc = JObj d" "''errors'' \<notin> set (map fst d)"
    "map_of d ''data'' = Some data"
    by (rule reply_data_Inr)
  with doc(1) show ?thesis by (intro that) simp_all
qed

lemma page_step_Inr:
  assumes "page_step all_items data = Inr res"
  obtains problemset items page tv t where
    "subscript data ''problemsetQuestionList'' = Inr problemset"
    "subscript problemset ''questions'' = Inr items" "iterate items = Inr page"
    "subscript problemset ''total'' = Inr tv" "number_value tv = Some t"
  using assms unfolding page_step_def int_ge_def
  by (auto split: sum.splits option.splits)

lemma page_of_defined:
  assumes "post_graphql ev q v w = (Inr data, w')" and "page_step all_items data = Inr res"
  shows "\<exists>page t. page_of (net ev (length (sent w))) = Some (page, t)"
proof -
  from assms(1) obtain d where
    d: "net ev (length (sent w)) = Body (Doc (JObj d))" "''errors'' \<notin> set (map fst d)"
       "map_of d ''data'' = Some data"
    by (rule post_graphql_Inr)
  from assms(2) obtain problemset items page tv t where
    "subscript data ''problemsetQuestionList'' = Inr problemset"
    "subscript problemset ''questions'' = Inr items" "iterate items = Inr page"
    "subscript problemset ''total'' = Inr tv" "number_value tv = Some t"
    by (rule page_step_Inr)
  with d have "page_of (net ev (length (sent w))) = Some (page, t)"
    by (simp add: page_of_def)
  then show ?thesis by blast
qed

lemma page_of_total:
  assumes "page_of r = Some (page, t)"
  shows "reported_total r = Some t"
proof -
  from assms obtain d data problemset items tv where
    "r = Body (Doc (JObj d))" "map_of d ''data'' = Some data"
    "subscript data ''problemsetQuestionList'' = Inr problemset"
    "subscript problemset ''total'' = Inr tv" "number_value tv = Some t"
    by (rule page_of_reply)
  then show ?thesis
    by (simp add: reported_total_def)
qed

lemma page_loop_stop:
  assumes "page_of (net ev (length (sent w))) = Some (page, t)"
  shows "page_loop ev skip limit all_items w =
           (if t \<le> of_nat (length (all_items @ page)) \<or> page = []
            then Some (Inr (all_items @ page),
                       w\<lparr>sent := sent w @ [Post LIST_QUERY (list_variables skip limit)]\<rparr>)
            else page_loop ev (skip + limit) limit (all_items @ page)
                   (w\<lparr>sent := sent w @ [Post LIST_QUERY (list_variables skip limit)]\<rparr>))"
proof -
  obtain data where
    "post_graphql ev LIST_QUERY (list_variables skip limit) w
       = (Inr data, w\<lparr>sent := sent w @ [Post LIST_QUERY (list_variables skip limit)]\<rparr>)"
    "page_step all_items data
       = Inr (all_items @ page, t \<le> of_nat (length (all_items @ page)) \<or> page = [])"
    using page_of_step [OF assms] by blast
  then show ?thesis
    by (subst page_loop.simps) simp
qed

lemma page_loop_error:
  assumes "page_of (net ev (length (sent w))) = None"
  shows "\<exists>e. page_loop ev skip limit all_items w =
           Some (Inl e, w\<lparr>sent := sent w @ [Post LIST_QUERY (list_variables skip limit)]\<rparr>)"
proof -
  obtain r w1 where pg: "post_graphql ev LIST_QUERY (list_variables skip limit) w = (r, w1)"
    by (cases "post_graphql ev LIST_QUERY (list_variables skip limit) w")
  have w1: "w1 = w\<lparr>sent := sent w @ [Post LIST_QUERY (list_variables skip limit)]\<rparr>"
    using post_graphql_world [of ev LIST_QUERY "list_variables skip limit" w] pg by simp
  show ?thesis
  proof (cases r)
    case (Inl e)
    with pg w1 show ?thesis
      by (subst page_loop.simps) simp
  next
    case (Inr data)
    show ?thesis
    proof (cases "page_step all_items data")
      case (Inl e)
      with pg w1 Inr show ?thesis
        by (subst page_loop.simps) simp
    next
      case step: (Inr res)
      have "\<exists>page t. page_of (net ev (length (sent w))) = Some (page, t)"
        using pg Inr step by (intro page_of_defined) auto
      with assms show ?thesis by simp
    qed
  qed
qed

text \<open>
  C9, amended: the loop compares the number of collected entries with the total reported on
  the current page. When the totals that the server reports stay below some bound (a total
  that is wrong but the same on every page, for one), the loop returns, after at most as
  many requests as the bound exceeds the entries already collected (and at least one). It
  stops at the first page on which the entries collected reach the reported total or that
  has no entries, returning what it collected, and goes on to the next page otherwise; a
  reply that carries no page ends it with an error.
\<close>

theorem page_loop_terminates:
  assumes "\<And>k t. reported_total (net ev k) = Some t \<Longrightarrow> t \<le> of_nat bound"
  shows "(\<exists>r w'. page_loop ev skip limit all_items w = Some (r, w')
            \<and> length (sent w') \<le> length (sent w) + max 1 (bound - length all_items))
         \<and> (\<forall>page t. page_of (net ev (length (sent w))) = Some (page, t) \<longrightarrow>
               page_loop ev skip limit all_items w =
                 (if t \<le> of_nat (length (all_items @ page)) \<or> page = []
                  then Some (Inr (all_items @ page),
                             w\<lparr>sent := sent w @ [Post LIST_QUERY (list_variables skip limit)]\<rparr>)
                  else page_loop ev (skip + limit) limit (all_items @ page)
                         (w\<lparr>sent := sent w @ [Post LIST_QUERY (list_variables skip limit)]\<rparr>)))
         \<and> (page_of (net ev (length (sent w))) = None \<longrightarrow>
               (\<exists>e. page_loop ev skip limit all_items w =
                  Some (Inl e, w\<lparr>sent := sent w @ [Post LIST_QUERY (list_variables skip limit)]\<rparr>)))"
proof -
  have fin: "\<exists>r w'. page_loop ev skip limit all_items w = Some (r, w')
            \<and> length (sent w') \<le> length (sent w) + max 1 (bound - length all_items)"
  proof (induction "bound - length all_items" arbitrary: skip all_items w rule: less_induct)
    case less
    let ?w1 = "w\<lparr>sent := sent w @ [Post LIST_QUERY (list_variables skip limit)]\<rparr>"
    show ?case
    proof (cases "page_of (net ev (length (sent w)))")
      case None
      then obtain e where "page_loop ev skip limit all_items w = Some (Inl e, ?w1)"
        using page_loop_error by blast
      then show ?thesis by simp
    next
      case (Some pt)
      obtain page t where pt: "pt = (page, t)" by (cases pt)
      note stop = page_loop_stop [OF Some [unfolded pt], of skip limit all_items]
      show ?thesis
      proof (cases "t \<le> of_nat (length (all_items @ page)) \<or> page = []")
        case True
        with stop have "page_loop ev skip limit all_items w = Some (Inr (all_items @ page), ?w1)"
          by simp
        then show ?thesis by simp
      next
        case False
        have "reported_total (net ev (length (sent w))) = Some t"
          using Some pt by (intro page_of_total) simp
        then have "t \<le> of_nat bound"
          by (rule assms)
        with False have "(of_nat (length (all_items @ page)) :: rat) < of_nat bound"
          by simp
        then have lt: "length (all_items @ page) < bound"
          by simp
        have gt: "length all_items < length (all_items @ page)"
          using False by simp
        have "bound - length (all_items @ page) < bound - length all_items"
          using lt gt by arith
        from less [OF this] obtain r w' where
          rec: "page_loop ev (skip + limit) limit (all_items @ page) ?w1 = Some (r, w')" and
          len: "length (sent w') \<le> length (sent ?w1) + max 1 (bound - length (all_items @ page))"
          by blast
        have "page_loop ev skip limit all_items w = Some (r, w')"
          using stop False rec by simp
        moreover have "length (sent ?w1) = length (sent w) + 1"
          by simp
        then have "length (sent w') \<le> length (sent w) + max 1 (bound - length all_items)"
          using len lt gt by arith
        ultimately show ?thesis by blast
      qed
    qed
  qed
  show ?thesis
    using fin page_loop_stop [of ev w _ _ skip limit all_items]
      page_loop_error [of ev w skip limit all_items]
    by blast
qed

lemma short_server_bounded: "reported_total (net short_server k) = Some t \<Longrightarrow> t \<le> of_nat 250"
  by (auto simp: reported_total_def short_server_def example_env_fields list_page_def
           split: if_splits)

theorem page_loop_terminates_witness:
  "(\<exists>r w'. page_loop short_server 0 100 [] empty_world = Some (r, w') \<and> length (sent w') \<le> 250)
   \<and> page_loop short_server 0 100 [] empty_world
       = Some (Inr [mk_entry ''1'' ''Two Sum'' ''two-sum'', mk_entry ''15'' ''3Sum'' ''3sum''],
               empty_world\<lparr>sent := [Post LIST_QUERY (list_variables 0 100),
                                       Post LIST_QUERY (list_variables 100 100)]\<rparr>)"
proof -
  note inst = page_loop_terminates [of short_server 250 0 100 "[]" empty_world,
      OF short_server_bounded]
  have "\<exists>r w'. page_loop short_server 0 100 [] empty_world = Some (r, w') \<and> length (sent w') \<le> 250"
    using inst by (simp add: empty_world_def)
  moreover have "page_loop short_server 0 100 [] empty_world
       = Some (Inr [mk_entry ''1'' ''Two Sum'' ''two-sum'', mk_entry ''15'' ''3Sum'' ''3sum''],
               empty_world\<lparr>sent := [Post LIST_QUERY (list_variables 0 100),
                                       Post LIST_QUERY (list_variables 100 100)]\<rparr>)"
    by (simp add: page_loop.simps post_graphql_def short_server_def example_env_fields
          list_page_def reply_data_def page_step_def int_ge_def empty_world_def)
  ultimately show ?thesis by simp
qed

lemma runaway_never_returns:
  assumes "page_loop ev skip limit all_items w = Some y"
  shows "ev = runaway \<longrightarrow> length all_items \<noteq> length (sent w)"
  using assms
proof (rule page_loop.raw_induct [rotated,
    where P = "\<lambda>ev skip limit all_items w y. ev = runaway \<longrightarrow> length all_items \<noteq> length (sent w)"],
    goal_cases)
  case (1 page_loop ev skip limit all_items w y)
  show ?case
  proof (intro impI notI)
    assume ev: "ev = runaway" and len: "length all_items = length (sent w)"
    let ?w' = "w\<lparr>sent := sent w @ [Post LIST_QUERY (list_variables skip limit)]\<rparr>"
    let ?data = "JObj [(''problemsetQuestionList'',
         JObj [(''total'', JInt (int (length (sent w)) + 2)), (''questions'', JList [JNull])])]"
    have pg: "post_graphql ev LIST_QUERY (list_variables skip limit) w = (Inr ?data, ?w')"
      using ev by (simp add: post_graphql_def runaway_def example_env_fields list_page_def
            reply_data_def)
    have step: "page_step all_items ?data = Inr (all_items @ [JNull], False)"
      using len by (simp add: page_step_def int_ge_def)
    have "page_loop ev (skip + limit) limit (all_items @ [JNull]) ?w' = Some y"
      using 1(2) pg step by simp
    from 1(1) [OF this] ev len show False
      by simp
  qed
qed

text \<open>
  C9 as stated fails: against a server whose reported total grows with every page, each page
  being non-empty, the loop never returns.
\<close>

theorem page_loop_counterexample:
  "page_loop runaway 0 100 [] empty_world = None"
proof (cases "page_loop runaway 0 100 [] empty_world")
  case None
  then show ?thesis .
next
  case (Some y)
  from runaway_never_returns [OF this] show ?thesis
    by (simp add: empty_world_def)
qed

text \<open>
  C1, amended: on a cache miss, when the paging loop ends in an error, that error is one
  that \<^verbatim>\<open>except RuntimeError\<close> catches exactly when the last reply was an error status,
  a dictionary with the key \<^verbatim>\<open>"errors"\<close>, or a body on which \<^verbatim>\<open>json.loads\<close> raised
  \<^verbatim>\<open>RecursionError\<close>. In that case the REST request is sent and its outcome is the
  outcome of the fetch (the list being saved before it is returned). Any other error (no
  connection, a timeout, a body that is not the expected document) is the outcome of the
  fetch, and no REST request is sent.
\<close>

theorem fetch_problem_list_fallback:
  assumes "load_cache (files w) (clock ev (length (sent w))) ''problem_list.json''
             LIST_TTL_SECONDS = Inr cached"
    and "\<not> truthy cached"
    and "page_loop ev 0 100 [] w = Some (Inl e, w1)"
  shows "(is_RuntimeError e \<longleftrightarrow> endpoint_error (net ev (length (sent w1) - 1)))
         \<and> (is_RuntimeError e \<longrightarrow>
              (\<exists>r. fetch_problem_list_rest ev w1 = (r, w1\<lparr>sent := sent w1 @ [Get_problem_list]\<rparr>)
                 \<and> fetch_problem_list ev w =
                     Some (case r of
                             Inl e2 \<Rightarrow> (Inl e2, w1\<lparr>sent := sent w1 @ [Get_problem_list]\<rparr>)
                           | Inr all_items \<Rightarrow>
                               save_and_return ev ''problem_list.json'' (JList all_items)
                                 (w1\<lparr>sent := sent w1 @ [Get_problem_list]\<rparr>))))
         \<and> (\<not> is_RuntimeError e \<longrightarrow>
              fetch_problem_list ev w = Some (Inl e, w1)
              \<and> Get_problem_list \<notin> set (drop (length (sent w)) (sent w1)))"
proof (intro conjI impI)
  show "is_RuntimeError e \<longleftrightarrow> endpoint_error (net ev (length (sent w1) - 1))"
    using page_loop_result [OF assms(3)] by simp
next
  assume e: "is_RuntimeError e"
  obtain r w2 where rest: "fetch_problem_list_rest ev w1 = (r, w2)"
    by (cases "fetch_problem_list_rest ev w1")
  have w2: "w2 = w1\<lparr>sent := sent w1 @ [Get_problem_list]\<rparr>"
    using fetch_problem_list_rest_world [of ev w1] rest by simp
  have "fetch_problem_list ev w =
          Some (case r of
                  Inl e2 \<Rightarrow> (Inl e2, w2)
                | Inr all_items \<Rightarrow> save_and_return ev ''problem_list.json'' (JList all_items) w2)"
    using assms e rest by (cases r) (simp_all add: fetch_problem_list_def)
  with rest w2
  show "\<exists>r. fetch_problem_list_rest ev w1 = (r, w1\<lparr>sent := sent w1 @ [Get_problem_list]\<rparr>)
          \<and> fetch_problem_list ev w =
              Some (case r of
                      Inl e2 \<Rightarrow> (Inl e2, w1\<lparr>sent := sent w1 @ [Get_problem_list]\<rparr>)
                    | Inr all_items \<Rightarrow>
                        save_and_return ev ''problem_list.json'' (JList all_items)
                          (w1\<lparr>sent := sent w1 @ [Get_problem_list]\<rparr>))"
    by blast
next
  assume "\<not> is_RuntimeError e"
  then show "fetch_problem_list ev w = Some (Inl e, w1)"
    using assms by (simp add: fetch_problem_list_def)
next
  assume "\<not> is_RuntimeError e"
  obtain reqs where "sent w1 = sent w @ reqs" "Get_problem_list \<notin> set reqs"
    using page_loop_result [OF assms(3)] by auto
  then show "Get_problem_list \<notin> set (drop (length (sent w)) (sent w1))"
    by simp
qed

lemma forbidden_page_loop:
  "page_loop graphql_forbidden 0 100 [] empty_world
     = Some (Inl RuntimeError, empty_world\<lparr>sent := [Post LIST_QUERY (list_variables 0 100)]\<rparr>)"
  by (subst page_loop.simps)
     (simp add: post_graphql_def graphql_forbidden_def example_env_fields empty_world_def)

lemma forbidden_rest:
  "fetch_problem_list_rest graphql_forbidden
       (empty_world\<lparr>sent := [Post LIST_QUERY (list_variables 0 100)]\<rparr>)
     = (Inr [JObj [(''questionId'', JStr ''1''), (''questionFrontendId'', JStr ''1''),
                   (''title'', JStr ''Two Sum''), (''titleSlug'', JStr ''two-sum''),
                   (''difficulty'', JStr ''Easy''), (''paidOnly'', JBool False)]],
        empty_world\<lparr>sent := [Post LIST_QUERY (list_variables 0 100), Get_problem_list]\<rparr>)"
  by (simp add: fetch_problem_list_rest_def graphql_forbidden_def example_env_fields
        empty_world_def rest_snapshot_def rest_payload_def rest_item_def eq_int_def example_str_def)

theorem fetch_problem_list_fallback_witness:
  "load_cache (files empty_world) (clock graphql_forbidden (length (sent empty_world)))
     ''problem_list.json'' LIST_TTL_SECONDS = Inr JNull
   \<and> page_loop graphql_forbidden 0 100 [] empty_world
       = Some (Inl RuntimeError, empty_world\<lparr>sent := [Post LIST_QUERY (list_variables 0 100)]\<rparr>)
   \<and> endpoint_error (net graphql_forbidden 0)
   \<and> map_option fst (fetch_problem_list graphql_forbidden empty_world)
       = Some (Inr (JList [JObj [(''questionId'', JStr ''1''), (''questionFrontendId'', JStr ''1''),
                                 (''title'', JStr ''Two Sum''), (''titleSlug'', JStr ''two-sum''),
                                 (''difficulty'', JStr ''Easy''), (''paidOnly'', JBool False)]]))
   \<and> map_option (\<lambda>y. sent (snd y)) (fetch_problem_list graphql_forbidden empty_world)
       = Some [Post LIST_QUERY (list_variables 0 100), Get_problem_list]"
proof -
  have miss: "load_cache (files empty_world) (clock graphql_forbidden (length (sent empty_world)))
     ''problem_list.json'' LIST_TTL_SECONDS = Inr JNull"
    by (simp add: load_cache_def empty_world_def)
  have falsy: "\<not> truthy JNull"
    by simp
  have caught: "is_RuntimeError RuntimeError"
    by (simp add: is_RuntimeError_def)
  have env: "written graphql_forbidden v = Inr (Doc v)" "write_error graphql_forbidden name = None"
    for v name
    by (simp_all add: graphql_forbidden_def example_env_fields)
  show ?thesis
    using fetch_problem_list_fallback [OF miss falsy forbidden_page_loop] miss forbidden_page_loop
      forbidden_rest caught
    by (auto simp: save_and_return_def save_world_def save_cache_def env)
qed

text \<open>
  C1 as stated fails: on a cache miss with no connection, the \<^verbatim>\<open>URLError\<close> of the list
  query is what the caller gets, after a single request.
\<close>

theorem fetch_problem_list_fallback_counterexample:
  "load_cache (files empty_world) (clock offline (length (sent empty_world)))
     ''problem_list.json'' LIST_TTL_SECONDS = Inr JNull
   \<and> net offline 0 = Unreachable
   \<and> fetch_problem_list offline empty_world
       = Some (Inl URLError, empty_world\<lparr>sent := [Post LIST_QUERY (list_variables 0 100)]\<rparr>)"
  by (simp add: load_cache_def empty_world_def offline_def example_env_fields
        fetch_problem_list_def page_loop.simps post_graphql_def is_RuntimeError_def)

section \<open>Properties of the markup converter\<close>

lemma split_from_words:
  "\<forall>c \<in> set w. \<not> isspace c \<Longrightarrow> list_all word (split_from w s)"
  by (induction s arbitrary: w) (simp_all add: word_def)

lemma split_words: "x \<in> set (split s) \<Longrightarrow> word x"
  using split_from_words [of "[]" s] by (simp add: split_def list_all_iff)

lemma split_from_word:
  "\<forall>c \<in> set u. \<not> isspace c \<Longrightarrow> split_from w (u @ rest) = split_from (w @ u) rest"
  by (induction u arbitrary: w) auto

lemma isspace_space: "isspace CHR '' ''"
  by (simp add: isspace_def)

lemma split_join:
  "\<forall>x \<in> set ws. word x \<Longrightarrow> split_from [] (join '' '' ws) = ws"
proof (induction "'' ''" ws rule: join.induct)
  case 1
  then show ?case by simp
next
  case (2 x)
  then show ?case
    using split_from_word [of x "[]" "[]"] by (simp add: word_def)
next
  case (3 x y ys)
  then have "split_from [] (x @ '' '' @ join '' '' (y # ys)) = split_from x ('' '' @ join '' '' (y # ys))"
    using split_from_word [of x "[]"] by (simp add: word_def)
  also have "\<dots> = x # split_from [] (join '' '' (y # ys))"
    using 3 by (simp add: word_def isspace_space)
  finally show ?case
    using 3 by simp
qed

lemma join_hd: "x \<noteq> [] \<Longrightarrow> hd (join sep (x # xs)) = hd x"
  by (cases xs) auto

lemma join_nonempty: "ws \<noteq> [] \<Longrightarrow> last ws \<noteq> [] \<Longrightarrow> join sep ws \<noteq> []"
  by (induction sep ws rule: join.induct) auto

lemma join_last: "ws \<noteq> [] \<Longrightarrow> last ws \<noteq> [] \<Longrightarrow> last (join sep ws) = last (last ws)"
proof (induction sep ws rule: join.induct)
  case (3 sep x y ys)
  then have "join sep (y # ys) \<noteq> []"
    using join_nonempty [of "y # ys" sep] by simp
  then have "last (x @ sep @ join sep (y # ys)) = last (join sep (y # ys))"
    by simp
  with 3 show ?case by simp
qed simp_all

lemma join_Nil: "join sep ws = [] \<Longrightarrow> \<forall>x \<in> set ws. x \<noteq> [] \<Longrightarrow> ws = []"
  by (induction sep ws rule: join.induct) auto

lemma strip_trimmed:
  assumes "s \<noteq> []" and "\<not> isspace (hd s)" and "\<not> isspace (last s)"
  shows "strip s = s"
proof -
  have "dropWhile isspace s = s"
    using assms(1,2) by (cases s) auto
  moreover have "dropWhile isspace (rev s) = rev s"
    using assms(1,3) by (cases "rev s") (auto simp: last_rev [symmetric] simp del: last_rev)
  ultimately show ?thesis
    by (simp add: strip_def)
qed

lemma strip_join:
  assumes "\<forall>x \<in> set ws. word x"
  shows "strip (join '' '' ws) = join '' '' ws"
proof (cases ws)
  case Nil
  then show ?thesis by (simp add: strip_def)
next
  case (Cons x xs)
  have x: "word x" and l: "word (last ws)"
    using assms Cons by auto
  have ne: "join '' '' ws \<noteq> []"
    using join_Nil [of "'' ''" ws] assms Cons by (auto simp: word_def)
  have "hd (join '' '' ws) = hd x"
    using x Cons by (simp add: join_hd word_def)
  then have h: "\<not> isspace (hd (join '' '' ws))"
    using x by (cases x) (auto simp: word_def)
  have "last (join '' '' ws) = last (last ws)"
    using l Cons by (intro join_last) (auto simp: word_def)
  then have t: "\<not> isspace (last (join '' '' ws))"
    using l by (auto simp: word_def)
  show ?thesis
    using ne h t by (rule strip_trimmed)
qed

lemma html_to_text_data: "html_to_text [Data t] = join '' '' (split t)"
proof -
  have w: "\<forall>x \<in> set (split t). word x"
    using split_words by blast
  show ?thesis
  proof (cases "t = [] \<or> join '' '' (split t) = []")
    case True
    then show ?thesis
      by (auto simp: html_to_text_def feed_def get_text_def new_parser_def
            handle_data_def strip_def split_def)
  next
    case False
    then have "html_to_text [Data t] = strip (join '' '' (split t))"
      by (simp add: html_to_text_def feed_def get_text_def new_parser_def
            handle_data_def append_chunk_def Let_def)
    then show ?thesis
      using strip_join [OF w] by simp
  qed
qed

lemma html_to_text_nothing: "html_to_text [] = []"
  by (simp add: html_to_text_def feed_def get_text_def new_parser_def strip_def)

lemma convert_text_markup_free:
  "markup_free t \<Longrightarrow> convert_text t = Some (join '' '' (split t))"
  by (simp add: convert_text_def feed_text_def html_to_text_data html_to_text_nothing split_def)

lemma set_split_from: "\<forall>x \<in> set (split_from w s). set x \<subseteq> set w \<union> set s"
proof (induction s arbitrary: w)
  case Nil
  then show ?case by simp
next
  case (Cons a s)
  show ?case
  proof (cases "isspace a")
    case True
    then show ?thesis
      using Cons [of "[]"] by (cases "w = []") auto
  next
    case False
    then show ?thesis
      using Cons [of "w @ [a]"] by auto
  qed
qed

lemma set_join: "set (join sep ws) \<subseteq> set sep \<union> \<Union> (set ` set ws)"
  by (induction sep ws rule: join.induct) auto

lemma markup_free_join_split: "markup_free t \<Longrightarrow> markup_free (join '' '' (split t))"
proof -
  assume t: "markup_free t"
  have "\<Union> (set ` set (split t)) \<subseteq> set t"
    using set_split_from [of "[]" t] by (auto simp: split_def)
  moreover have "set (join '' '' (split t)) \<subseteq> {CHR '' ''} \<union> \<Union> (set ` set (split t))"
    using set_join [of "'' ''" "split t"] by simp
  ultimately have "set (join '' '' (split t)) \<subseteq> {CHR '' ''} \<union> set t"
    by blast
  with t show ?thesis
    by (auto simp: markup_free_def)
qed

lemma split_join_split: "split (join '' '' (split t)) = split t"
proof -
  have "\<forall>x \<in> set (split t). word x"
    using split_words by blast
  then show ?thesis
    using split_join [of "split t"] by (simp add: split_def)
qed

text \<open>
  C2, amended: a text in which neither \<^verbatim>\<open><\<close> nor \<^verbatim>\<open>&\<close> occurs reaches the handlers
  as one chunk. When the output of a conversion is such a text, converting it again gives
  that output with every run of whitespace (the newlines set for paragraphs, line breaks
  and list items, and what a preformatted block kept, included) replaced by one space; and
  on such a text the conversion is idempotent.
\<close>

theorem html_to_text_reconvert:
  "(markup_free (html_to_text html) \<longrightarrow>
      convert_text (html_to_text html) = Some (join '' '' (split (html_to_text html))))
   \<and> (markup_free t \<longrightarrow>
        convert_text t = Some (join '' '' (split t))
        \<and> convert_text (join '' '' (split t)) = Some (join '' '' (split t)))"
proof (intro conjI impI)
  assume "markup_free (html_to_text html)"
  then show "convert_text (html_to_text html) = Some (join '' '' (split (html_to_text html)))"
    by (rule convert_text_markup_free)
next
  assume "markup_free t"
  then show "convert_text t = Some (join '' '' (split t))"
    by (rule convert_text_markup_free)
next
  assume "markup_free t"
  then have "markup_free (join '' '' (split t))"
    by (rule markup_free_join_split)
  then have "convert_text (join '' '' (split t)) = Some (join '' '' (split (join '' '' (split t))))"
    by (rule convert_text_markup_free)
  then show "convert_text (join '' '' (split t)) = Some (join '' '' (split t))"
    by (simp add: split_join_split)
qed

lemma two_paragraphs:
  "html_to_text [StartTag ''p'' [], Data ''a'', EndTag ''p'',
                 StartTag ''p'' [], Data ''b'', EndTag ''p''] = [CHR ''a'', CHR 0x0A, CHR ''b'']"
  by code_simp

lemma two_lines:
  "markup_free [CHR ''a'', CHR 0x0A, CHR ''b'']"
  "join '' '' (split [CHR ''a'', CHR 0x0A, CHR ''b'']) = ''a b''"
  by (simp add: markup_free_def, code_simp)

text \<open>
  C2 as stated fails: two paragraphs convert to two lines, and converting the two lines
  again joins them with a space.
\<close>

theorem html_to_text_idempotent_counterexample:
  "html_to_text [StartTag ''p'' [], Data ''a'', EndTag ''p'',
                 StartTag ''p'' [], Data ''b'', EndTag ''p''] = [CHR ''a'', CHR 0x0A, CHR ''b'']
   \<and> convert_text [CHR ''a'', CHR 0x0A, CHR ''b''] = Some ''a b''"
  using convert_text_markup_free [OF two_lines(1)] by (simp add: two_paragraphs two_lines(2))

theorem html_to_text_reconvert_witness:
  "convert_text (html_to_text [StartTag ''p'' [], Data ''a'', EndTag ''p'',
                               StartTag ''p'' [], Data ''b'', EndTag ''p'']) = Some ''a b''
   \<and> convert_text ''  Two   Sum '' = Some ''Two Sum''
   \<and> convert_text ''Two Sum'' = Some ''Two Sum''"
proof -
  have m: "markup_free ''  Two   Sum ''"
    by (simp add: markup_free_def)
  have b: "join '' '' (split ''  Two   Sum '') = ''Two Sum''"
    by code_simp
  show ?thesis
    using html_to_text_reconvert
      [of "[StartTag ''p'' [], Data ''a'', EndTag ''p'', StartTag ''p'' [], Data ''b'', EndTag ''p'']"
          "''  Two   Sum ''"]
      two_lines m
    by (simp add: two_paragraphs b)
qed

end
